theory Spec2Isabelle
  imports Main "HOL-Library.Word"
begin

unbundle bit_operations_syntax

section \<open>Register addresses\<close>

text \<open>The module-level constants of \<^verbatim>\<open>ds3231.py\<close>.\<close>

definition DATETIME_REG :: nat where "DATETIME_REG = 0"
definition ALARM1_REG :: nat where "ALARM1_REG = 7"
definition ALARM2_REG :: nat where "ALARM2_REG = 11"
definition CONTROL_REG :: nat where "CONTROL_REG = 14"
definition STATUS_REG :: nat where "STATUS_REG = 15"
definition AGING_REG :: nat where "AGING_REG = 16"
definition TEMPERATURE_REG :: nat where "TEMPERATURE_REG = 17"

section \<open>BCD helpers\<close>

text \<open>
  Python integers are unbounded, so both helpers work on \<open>int\<close>. \<open>//\<close> and \<open>%\<close>
  round towards minus infinity like \<open>div\<close> and \<open>mod\<close>; \<open><<\<close>, \<open>>>\<close>, \<open>&\<close> and
  \<open>|\<close> act on the infinite two's complement representation like \<open>push_bit\<close>,
  \<open>drop_bit\<close>, \<open>AND\<close> and \<open>OR\<close>.
\<close>

definition dectobcd :: "int \<Rightarrow> int" where
  "dectobcd decimal =
     (let tens = decimal div 10;
          ones = decimal mod 10
      in push_bit 4 tens OR ones)"

definition bcdtodec :: "int \<Rightarrow> int" where
  "bcdtodec bcd =
     (let tens = drop_bit 4 bcd AND 0x0F;
          ones = bcd AND 0x0F
      in tens * 10 + ones)"

section \<open>Python values used by the driver\<close>

datatype error = IndexError | ValueError

text \<open>\<open>t[i]\<close> for a tuple \<open>t\<close> and a literal index \<open>i \<ge> 0\<close>.\<close>

definition item :: "'a list \<Rightarrow> nat \<Rightarrow> error + 'a" where
  "item t i = (if i < length t then Inr (t ! i) else Inl IndexError)"

text \<open>
  A \<open>bytearray\<close> holds bytes. Reading an element gives its value as an integer
  (\<open>uint\<close>). A store into an element, and \<open>bytearray([v])\<close>, take an integer in
  0..255 and raise \<open>ValueError\<close> for any other. (An interpreter that keeps the
  low eight bits instead agrees with this wherever no \<open>ValueError\<close> is returned.)
\<close>

type_synonym byte = "8 word"

definition byte_of :: "int \<Rightarrow> error + byte" where
  "byte_of v = (if 0 \<le> v \<and> v \<le> 255 then Inr (word_of_int v) else Inl ValueError)"

text \<open>
  Statements in sequence: when the first raises, the rest is skipped and the
  exception goes to the caller, with the object as the first statement left it.
\<close>

definition and_then ::
  "(error + 'a) \<times> 's \<Rightarrow> ('a \<Rightarrow> 's \<Rightarrow> (error + 'b) \<times> 's) \<Rightarrow> (error + 'b) \<times> 's" where
  "and_then m f = (case m of (Inl e, s) \<Rightarrow> (Inl e, s) | (Inr x, s) \<Rightarrow> f x s)"

subsection \<open>\<open>str\<close> of an integer, the slice \<open>[-2:]\<close> and \<open>int\<close> of a string\<close>

definition digit_char :: "nat \<Rightarrow> char" where
  "digit_char d = ''0123456789'' ! d"

function str_nat :: "nat \<Rightarrow> string" where
  "str_nat n = (if n < 10 then [digit_char n] else str_nat (n div 10) @ [digit_char (n mod 10)])"
  by pat_completeness auto
termination
  by (relation "measure (\<lambda>n. n)") auto

declare str_nat.simps [simp del]

definition py_str :: "int \<Rightarrow> string" where
  "py_str i = (if i < 0 then CHR ''-'' # str_nat (nat (- i)) else str_nat (nat i))"

text \<open>\<open>s[-2:]\<close>: the last two characters, or all of \<open>s\<close> when it is shorter.\<close>

definition last2 :: "'a list \<Rightarrow> 'a list" where
  "last2 s = drop (length s - 2) s"

definition digit_val :: "char \<Rightarrow> nat option" where
  "digit_val c = map_of (zip ''0123456789'' [0, 1, 2, 3, 4, 5, 6, 7, 8, 9]) c"

fun parse_digits :: "string \<Rightarrow> nat \<Rightarrow> error + nat" where
  "parse_digits [] acc = Inr acc"
| "parse_digits (c # cs) acc =
     (case digit_val c of
        None \<Rightarrow> Inl ValueError
      | Some d \<Rightarrow> parse_digits cs (10 * acc + d))"

text \<open>
  \<open>int(s)\<close> on an optional sign followed by at least one decimal digit; anything
  else is a \<open>ValueError\<close>. (Python also accepts surrounding blanks and
  underscores, which \<open>str\<close> of an integer never produces.)
\<close>

definition py_int :: "string \<Rightarrow> error + int" where
  "py_int s =
     (case s of
        [] \<Rightarrow> Inl ValueError
      | c # cs \<Rightarrow>
          if c = CHR ''-'' \<or> c = CHR ''+'' then
            (if cs = [] then Inl ValueError
             else case parse_digits cs 0 of
                    Inl e \<Rightarrow> Inl e
                  | Inr n \<Rightarrow> Inr (if c = CHR ''-'' then - int n else int n))
          else case parse_digits s 0 of
                 Inl e \<Rightarrow> Inl e
               | Inr n \<Rightarrow> Inr (int n))"

section \<open>The I2C bus\<close>

text \<open>
  The bus is the driver's collaborator. It is modelled as an ideal register
  file: a block read returns the bytes last written to those registers, a block
  write stores its bytes at consecutive registers, and neither fails. Every
  write is also appended to \<open>writes\<close>, so that the traffic a call issues can be
  stated.
\<close>

record i2c_bus =
  mem :: "nat \<Rightarrow> nat \<Rightarrow> byte"
  writes :: "(nat \<times> nat \<times> byte list) list"

definition readfrom_mem :: "i2c_bus \<Rightarrow> nat \<Rightarrow> nat \<Rightarrow> nat \<Rightarrow> byte list" where
  "readfrom_mem bus a r n = map (\<lambda>i. mem bus a (r + i)) [0..<n]"

definition writeto_mem :: "i2c_bus \<Rightarrow> nat \<Rightarrow> nat \<Rightarrow> byte list \<Rightarrow> i2c_bus" where
  "writeto_mem bus a r bs =
     bus\<lparr>mem := (mem bus)(a := (\<lambda>k. if r \<le> k \<and> k < r + length bs then bs ! (k - r)
                                      else mem bus a k)),
         writes := writes bus @ [(a, r, bs)]\<rparr>"

section \<open>The driver object\<close>

record DS3231 =
  i2c :: i2c_bus
  addr :: nat
  timebuf :: "byte list"
  buf :: "byte list"
  al1_buf :: "byte list"
  al2buf :: "byte list"
  console :: "string list"

text \<open>\<open>__init__\<close>: the four reusable buffers are zero-filled bytearrays.\<close>

definition init :: "i2c_bus \<Rightarrow> nat \<Rightarrow> DS3231" where
  "init bus a =
     \<lparr>i2c = bus, addr = a,
      timebuf = replicate 7 0, buf = replicate 1 0,
      al1_buf = replicate 4 0, al2buf = replicate 3 0,
      console = []\<rparr>"

text \<open>
  The buffers never change their length. Element stores use list update, which
  agrees with the bytearray store as long as the index is inside the buffer;
  \<open>buffers_ok\<close> says that it is.
\<close>

definition buffers_ok :: "DS3231 \<Rightarrow> bool" where
  "buffers_ok s \<longleftrightarrow>
     length (timebuf s) = 7 \<and> length (buf s) = 1 \<and>
     length (al1_buf s) = 4 \<and> length (al2buf s) = 3"

text \<open>
  The element stores \<open>self._timebuf[i] = v\<close>, \<open>self._al1_buf[i] = v\<close> and
  \<open>self._al2buf[i] = v\<close>, and the one-byte write
  \<open>self.i2c.writeto_mem(self.addr, reg, bytearray([v]))\<close>, whose \<open>bytearray\<close> is
  built before the bus is touched.
\<close>

definition store_timebuf :: "nat \<Rightarrow> int \<Rightarrow> DS3231 \<Rightarrow> (error + unit) \<times> DS3231" where
  "store_timebuf i v s =
     (case byte_of v of
        Inl e \<Rightarrow> (Inl e, s)
      | Inr b \<Rightarrow> (Inr (), s\<lparr>timebuf := (timebuf s)[i := b]\<rparr>))"

definition store_al1_buf :: "nat \<Rightarrow> int \<Rightarrow> DS3231 \<Rightarrow> (error + unit) \<times> DS3231" where
  "store_al1_buf i v s =
     (case byte_of v of
        Inl e \<Rightarrow> (Inl e, s)
      | Inr b \<Rightarrow> (Inr (), s\<lparr>al1_buf := (al1_buf s)[i := b]\<rparr>))"

definition store_al2buf :: "nat \<Rightarrow> int \<Rightarrow> DS3231 \<Rightarrow> (error + unit) \<times> DS3231" where
  "store_al2buf i v s =
     (case byte_of v of
        Inl e \<Rightarrow> (Inl e, s)
      | Inr b \<Rightarrow> (Inr (), s\<lparr>al2buf := (al2buf s)[i := b]\<rparr>))"

definition write_byte :: "nat \<Rightarrow> int \<Rightarrow> DS3231 \<Rightarrow> (error + unit) \<times> DS3231" where
  "write_byte reg v s =
     (case byte_of v of
        Inl e \<Rightarrow> (Inl e, s)
      | Inr b \<Rightarrow> (Inr (), s\<lparr>i2c := writeto_mem (i2c s) (addr s) reg [b]\<rparr>))"

subsection \<open>Match modes and frequencies\<close>

definition FREQ_1 :: int where "FREQ_1 = 1"
definition FREQ_1024 :: int where "FREQ_1024 = 2"
definition FREQ_4096 :: int where "FREQ_4096 = 3"
definition FREQ_8192 :: int where "FREQ_8192 = 4"
definition SQW_32K :: int where "SQW_32K = 1"

definition AL1_EVERY_S :: int where "AL1_EVERY_S = 15"
definition AL1_MATCH_S :: int where "AL1_MATCH_S = 14"
definition AL1_MATCH_MS :: int where "AL1_MATCH_MS = 12"
definition AL1_MATCH_HMS :: int where "AL1_MATCH_HMS = 8"
definition AL1_MATCH_DHMS :: int where "AL1_MATCH_DHMS = 0"

definition AL2_EVERY_M :: int where "AL2_EVERY_M = 7"
definition AL2_MATCH_M :: int where "AL2_MATCH_M = 6"
definition AL2_MATCH_HM :: int where "AL2_MATCH_HM = 4"
definition AL2_MATCH_DHM :: int where "AL2_MATCH_DHM = 0"

subsection \<open>Status flags\<close>

definition OSF :: "DS3231 \<Rightarrow> bool" where
  "OSF s \<longleftrightarrow> uint (readfrom_mem (i2c s) (addr s) STATUS_REG 1 ! 0) AND 0x80 \<noteq> 0"

definition OSF_reset :: "DS3231 \<Rightarrow> (error + unit) \<times> DS3231" where
  "OSF_reset s =
     (let s1 = s\<lparr>buf := readfrom_mem (i2c s) (addr s) STATUS_REG (length (buf s))\<rparr>;
          cleared = uint (buf s1 ! 0) AND 0x7F
      in write_byte STATUS_REG cleared s1)"

definition is_busy :: "DS3231 \<Rightarrow> bool" where
  "is_busy s \<longleftrightarrow> uint (readfrom_mem (i2c s) (addr s) STATUS_REG 1 ! 0) AND push_bit 2 1 \<noteq> 0"

definition output_32kHz :: "bool \<Rightarrow> DS3231 \<Rightarrow> (error + unit) \<times> DS3231" where
  "output_32kHz enable s =
     (let current = uint (readfrom_mem (i2c s) (addr s) STATUS_REG 1 ! 0);
          new = (if enable then current OR push_bit 3 1 else current AND NOT (push_bit 3 1))
      in write_byte STATUS_REG new s)"

definition check_alarm :: "int \<Rightarrow> DS3231 \<Rightarrow> (error + bool) \<times> DS3231" where
  "check_alarm alarm s =
     (let s1 = s\<lparr>buf := readfrom_mem (i2c s) (addr s) STATUS_REG (length (buf s))\<rparr>;
          status = uint (buf s1 ! 0)
      in if \<not> (status AND alarm \<noteq> 0) then (Inr False, s1)
         else and_then (write_byte STATUS_REG (status AND NOT alarm) s1)
                (\<lambda>u s2. (Inr True, s2)))"

subsection \<open>Date and time\<close>

text \<open>
  \<open>datetime()\<close> without an argument. The eight fields of the returned tuple are
  \<open>[year, month, day, weekday, hour, minutes, seconds, 0]\<close>; the warning that
  is printed when the oscillator-stop flag is set goes to \<open>console\<close>.
\<close>

definition datetime_get :: "DS3231 \<Rightarrow> int list \<times> DS3231" where
  "datetime_get s =
     (let s1 = s\<lparr>timebuf := readfrom_mem (i2c s) (addr s) DATETIME_REG (length (timebuf s))\<rparr>;
          seconds = bcdtodec (uint (timebuf s1 ! 0));
          minutes = bcdtodec (uint (timebuf s1 ! 1));
          hr_reg = uint (timebuf s1 ! 2);
          hour = (if hr_reg AND 0x40 \<noteq> 0
                  then (let hour = bcdtodec (hr_reg AND 0x1F)
                        in if hr_reg AND 0x20 \<noteq> 0 then hour + 12 else hour)
                  else bcdtodec (hr_reg AND 0x3F));
          weekday = bcdtodec (uint (timebuf s1 ! 3));
          day = bcdtodec (uint (timebuf s1 ! 4));
          month = bcdtodec (uint (timebuf s1 ! 5) AND 0x7F);
          year = bcdtodec (uint (timebuf s1 ! 6)) + 2000;
          s2 = (if OSF s1
                then s1\<lparr>console := console s1 @
                       [''WARNING: Oscillator stop flag set. Time may not be accurate.'']\<rparr>
                else s1)
      in ([year, month, day, weekday, hour, minutes, seconds, 0], s2))"

text \<open>
  \<open>datetime(dt)\<close> with a tuple \<open>(year, month, day, hour, minute, second, weekday)\<close>.
  The weekday and the seconds fall back to 0 on an \<open>IndexError\<close>; the other
  five fields are read without a handler, so a tuple that is too short raises
  after the first two stores into the buffer. The \<open>ValueError\<close> of a store is
  caught nowhere. The month is masked with \<open>0xFF\<close> before it is stored.
\<close>

definition datetime_set :: "int list \<Rightarrow> DS3231 \<Rightarrow> (error + bool) \<times> DS3231" where
  "datetime_set dt s =
     and_then (case item dt 6 of Inr v \<Rightarrow> store_timebuf 3 (dectobcd v) s
               | Inl e \<Rightarrow> store_timebuf 3 0 s) (\<lambda>u s1.
     and_then (case item dt 5 of Inr v \<Rightarrow> store_timebuf 0 (dectobcd v) s1
               | Inl e \<Rightarrow> store_timebuf 0 0 s1) (\<lambda>u s2.
     and_then (item dt 4, s2) (\<lambda>mi s2.
     and_then (store_timebuf 1 (dectobcd mi) s2) (\<lambda>u s3.
     and_then (item dt 3, s3) (\<lambda>h s3.
     and_then (store_timebuf 2 (dectobcd h) s3) (\<lambda>u s4.
     and_then (item dt 2, s4) (\<lambda>d s4.
     and_then (store_timebuf 4 (dectobcd d) s4) (\<lambda>u s5.
     and_then (item dt 1, s5) (\<lambda>mo s5.
     and_then (store_timebuf 5 (dectobcd mo AND 0xFF) s5) (\<lambda>u s6.
     and_then (item dt 0, s6) (\<lambda>y s6.
     and_then (py_int (last2 (py_str y)), s6) (\<lambda>yy s6.
     and_then (store_timebuf 6 (dectobcd yy) s6) (\<lambda>u s7.
     and_then (OSF_reset (s7\<lparr>i2c := writeto_mem (i2c s7) (addr s7) DATETIME_REG
                                      (timebuf s7)\<rparr>)) (\<lambda>u s9.
     (Inr True, s9)))))))))))))))"

datatype datetime_result = Fields "int list" | Done bool

definition datetime :: "int list option \<Rightarrow> DS3231 \<Rightarrow> (error + datetime_result) \<times> DS3231" where
  "datetime arg s =
     (case arg of
        None \<Rightarrow> (let (t, s') = datetime_get s in (Inr (Fields t), s'))
      | Some dt \<Rightarrow>
          (case datetime_set dt s of
             (Inl e, s') \<Rightarrow> (Inl e, s')
           | (Inr b, s') \<Rightarrow> (Inr (Done b), s')))"

subsection \<open>Square-wave output\<close>

text \<open>
  \<open>square_wave(freq)\<close>: \<open>None\<close> reads the control register; \<open>False\<close> is the
  integer 0, and every other integer selects a frequency.
\<close>

definition square_wave :: "int option \<Rightarrow> DS3231 \<Rightarrow> (error + int + bool) \<times> DS3231" where
  "square_wave freq s =
     (case freq of
        None \<Rightarrow> (Inr (Inl (uint (readfrom_mem (i2c s) (addr s) CONTROL_REG 1 ! 0))), s)
      | Some f \<Rightarrow>
          (let s1 = s\<lparr>buf := readfrom_mem (i2c s) (addr s) CONTROL_REG (length (buf s))\<rparr>;
               ctrl = uint (buf s1 ! 0);
               new = (if f = 0 then (ctrl AND 0xF8) OR 0x04
                      else (ctrl AND 0xE3) OR push_bit 3 (f - 1))
           in and_then (write_byte CONTROL_REG new s1) (\<lambda>u s2. (Inr (Inr True), s2))))"

subsection \<open>Alarm interrupts\<close>

definition alarm_int :: "bool \<Rightarrow> int \<Rightarrow> DS3231 \<Rightarrow> (error + byte list) \<times> DS3231" where
  "alarm_int enable alarm s =
     and_then
       (if alarm = 0 \<or> alarm = 1 then
          (let sa = s\<lparr>buf := readfrom_mem (i2c s) (addr s) CONTROL_REG (length (buf s))\<rparr>;
               ctrl = uint (buf sa ! 0);
               new = (if enable then (ctrl AND 0xFA) OR 0x05 else ctrl AND 0xFD)
           in write_byte CONTROL_REG new sa)
        else (Inr (), s)) (\<lambda>u s1.
     and_then
       (if alarm = 0 \<or> alarm = 2 then
          (let sb = s1\<lparr>buf := readfrom_mem (i2c s1) (addr s1) CONTROL_REG (length (buf s1))\<rparr>;
               ctrl = uint (buf sb ! 0);
               new = (if enable then (ctrl AND 0xF9) OR 0x06 else ctrl AND 0xFB)
           in write_byte CONTROL_REG new sb)
        else (Inr (), s1)) (\<lambda>u s2.
     (Inr (readfrom_mem (i2c s2) (addr s2) CONTROL_REG 1), s2)))"

subsection \<open>Alarms\<close>

text \<open>The \<open>time\<close> argument is a single integer or a tuple of integers.\<close>

datatype time_arg = Scalar int | Tuple "int list"

definition alarm1 ::
  "time_arg option \<Rightarrow> int \<Rightarrow> bool \<Rightarrow> bool \<Rightarrow> DS3231 \<Rightarrow> (error + byte list) \<times> DS3231" where
  "alarm1 time_opt match int_en weekday s =
     (case time_opt of
        None \<Rightarrow>
          (let s1 = s\<lparr>al1_buf := readfrom_mem (i2c s) (addr s) ALARM1_REG (length (al1_buf s))\<rparr>
           in (Inr (al1_buf s1), s1))
      | Some t \<Rightarrow>
          (let time = (case t of Scalar n \<Rightarrow> [n] | Tuple xs \<Rightarrow> xs);
               a1m1 = push_bit 7 (match AND 0x01);
               a1m2 = push_bit 6 (match AND 0x02);
               a1m3 = push_bit 5 (match AND 0x04);
               a1m4 = push_bit 4 (match AND 0x08);
               dydt = (if weekday then push_bit 6 1 else 0)
           in and_then (item time 0, s) (\<lambda>t0 s.
              and_then (store_al1_buf 0 (dectobcd t0 OR a1m1) s) (\<lambda>u s1.
              and_then (store_al1_buf 1 (if length time > 1 then dectobcd (time ! 1) OR a1m2
                                         else a1m2) s1) (\<lambda>u s2.
              and_then (store_al1_buf 2 (if length time > 2 then dectobcd (time ! 2) OR a1m3
                                         else a1m3) s2) (\<lambda>u s3.
              and_then (store_al1_buf 3 (if length time > 3
                                         then dectobcd (time ! 3) OR a1m4 OR dydt
                                         else a1m4 OR dydt) s3) (\<lambda>u s4.
              and_then (alarm_int int_en 1
                          (s4\<lparr>i2c := writeto_mem (i2c s4) (addr s4) ALARM1_REG
                                         (al1_buf s4)\<rparr>)) (\<lambda>c s6.
              and_then (check_alarm 1 s6) (\<lambda>p s7.
              (Inr (al1_buf s7), s7))))))))))"

definition alarm2 ::
  "time_arg option \<Rightarrow> int \<Rightarrow> bool \<Rightarrow> bool \<Rightarrow> DS3231 \<Rightarrow> (error + byte list) \<times> DS3231" where
  "alarm2 time_opt match int_en weekday s =
     (case time_opt of
        None \<Rightarrow>
          (let s1 = s\<lparr>al2buf := readfrom_mem (i2c s) (addr s) ALARM2_REG (length (al2buf s))\<rparr>
           in (Inr (al2buf s1), s1))
      | Some t \<Rightarrow>
          (let time = (case t of Scalar n \<Rightarrow> [n] | Tuple xs \<Rightarrow> xs);
               a2m2 = push_bit 7 (match AND 0x01);
               a2m3 = push_bit 6 (match AND 0x02);
               a2m4 = push_bit 5 (match AND 0x04);
               dydt = (if weekday then push_bit 6 1 else 0)
           in and_then (store_al2buf 0 (if length time > 0 then dectobcd (time ! 0) OR a2m2
                                        else a2m2) s) (\<lambda>u s1.
              and_then (store_al2buf 1 (if length time > 1 then dectobcd (time ! 1) OR a2m3
                                        else a2m3) s1) (\<lambda>u s2.
              and_then (store_al2buf 2 (if length time > 2
                                        then dectobcd (time ! 2) OR a2m4 OR dydt
                                        else a2m4 OR dydt) s2) (\<lambda>u s3.
              and_then (alarm_int int_en 2
                          (s3\<lparr>i2c := writeto_mem (i2c s3) (addr s3) ALARM2_REG
                                         (al2buf s3)\<rparr>)) (\<lambda>c s5.
              and_then (check_alarm 2 s5) (\<lambda>p s6.
              (Inr (al2buf s6), s6))))))))"

section \<open>The two-digit year\<close>

lemma str_nat_small: "n < 10 \<Longrightarrow> str_nat n = [digit_char n]"
  by (subst str_nat.simps) simp

lemma str_nat_big: "10 \<le> n \<Longrightarrow> str_nat n = str_nat (n div 10) @ [digit_char (n mod 10)]"
  by (subst str_nat.simps) simp

lemma str_nat_nonempty: "str_nat n \<noteq> []"
  by (subst str_nat.simps) simp

lemma last_str_nat: "last (str_nat n) = digit_char (n mod 10)"
  by (subst str_nat.simps) simp

lemma last2_snoc: "xs \<noteq> [] \<Longrightarrow> last2 (xs @ [a]) = [last xs, a]"
proof -
  assume "xs \<noteq> []"
  then obtain ys y where xs: "xs = ys @ [y]" by (metis rev_exhaust)
  show ?thesis by (simp add: xs last2_def)
qed

lemma last2_str_nat:
  "10 \<le> n \<Longrightarrow> last2 (str_nat n) = [digit_char (n div 10 mod 10), digit_char (n mod 10)]"
  by (simp add: str_nat_big last2_snoc str_nat_nonempty last_str_nat)

lemma last2_Cons_long: "2 \<le> length xs \<Longrightarrow> last2 (c # xs) = last2 xs"
proof -
  assume "2 \<le> length xs"
  then have "length (c # xs) - 2 = Suc (length xs - 2)" by simp
  then show ?thesis unfolding last2_def by simp
qed

lemma length_str_nat_big: "10 \<le> n \<Longrightarrow> 2 \<le> length (str_nat n)"
  using str_nat_nonempty [of "n div 10"]
  by (simp add: str_nat_big Suc_le_eq)

lemma digit_cases: "d < 10 \<Longrightarrow> d = 0 \<or> d = 1 \<or> d = 2 \<or> d = 3 \<or> d = 4 \<or> d = 5 \<or> d = 6 \<or> d = 7 \<or> d = 8 \<or> d = (9::nat)"
  by arith

lemma digit_val_digit_char: "d < 10 \<Longrightarrow> digit_val (digit_char d) = Some d"
  using digit_cases [of d] by (auto simp: digit_val_def digit_char_def)

lemma digit_char_not_sign: "d < 10 \<Longrightarrow> digit_char d \<noteq> CHR ''-'' \<and> digit_char d \<noteq> CHR ''+''"
  using digit_cases [of d] by (auto simp: digit_char_def)

lemma py_int_digit: "d < 10 \<Longrightarrow> py_int [digit_char d] = Inr (int d)"
  by (simp add: py_int_def digit_char_not_sign digit_val_digit_char)

lemma py_int_two_digits:
  "a < 10 \<Longrightarrow> b < 10 \<Longrightarrow> py_int [digit_char a, digit_char b] = Inr (int (10 * a + b))"
  by (simp add: py_int_def digit_char_not_sign digit_val_digit_char)

lemma py_int_minus_digit: "d < 10 \<Longrightarrow> py_int [CHR ''-'', digit_char d] = Inr (- int d)"
  by (simp add: py_int_def digit_val_digit_char)

lemma two_digits_mod: "10 * (n div 10 mod 10) + n mod 10 = (n mod 100 :: nat)"
  using mod_mult2_eq [of n 10 10] by simp

text \<open>The value of \<open>int(str(y)[-2:])\<close>.\<close>

lemma year_digits:
  "py_int (last2 (py_str y)) = Inr (if - 10 < y \<and> y < 0 then y else \<bar>y\<bar> mod 100)"
proof (cases "y < 0")
  case False
  define n where "n = nat y"
  with False have y: "y = int n" by simp
  show ?thesis
  proof (cases "n < 10")
    case True
    then show ?thesis by (simp add: y py_str_def str_nat_small last2_def py_int_digit)
  next
    case False
    then have "py_int (last2 (py_str y)) = Inr (int (10 * (n div 10 mod 10) + n mod 10))"
      by (simp add: y py_str_def last2_str_nat py_int_two_digits del: of_nat_add of_nat_mult)
    then show ?thesis unfolding two_digits_mod by (simp add: y zmod_int)
  qed
next
  case True
  define k where "k = nat (- y)"
  with True have y: "y = - int k" and k: "0 < k" by simp_all
  show ?thesis
  proof (cases "k < 10")
    case True
    with k show ?thesis by (simp add: y py_str_def str_nat_small last2_def py_int_minus_digit)
  next
    case False
    then have "py_int (last2 (py_str y)) = Inr (int (10 * (k div 10 mod 10) + k mod 10))"
      using k
      by (simp add: y py_str_def last2_Cons_long length_str_nat_big last2_str_nat
          py_int_two_digits del: of_nat_add of_nat_mult)
    then show ?thesis unfolding two_digits_mod using False by (simp add: y zmod_int)
  qed
qed

section \<open>Arithmetic of the BCD helpers\<close>

lemma and_15_mod: "(x::int) AND 15 = x mod 16"
  using take_bit_eq_mask [of 4 x] by (simp add: take_bit_eq_mod mask_eq_exp_minus_1)

lemma push4_or: "0 \<le> b \<Longrightarrow> b < 16 \<Longrightarrow> push_bit 4 (a::int) OR b = 16 * a + b"
proof -
  assume b: "0 \<le> b" "b < 16"
  then have tb: "take_bit 4 b = b" by (simp add: take_bit_eq_mod)
  have "push_bit 4 a + take_bit 4 b = push_bit 4 a OR take_bit 4 b"
    by (rule disjunctive_add) (auto simp: bit_simps)
  then show ?thesis by (simp add: tb push_bit_eq_mult)
qed

lemma dectobcd_arith: "dectobcd n = 16 * (n div 10) + n mod 10"
  by (simp add: dectobcd_def push4_or)

lemma bcdtodec_arith: "bcdtodec b = (b div 16 mod 16) * 10 + b mod 16"
  by (simp add: bcdtodec_def and_15_mod drop_bit_eq_div)

lemma nibbles_div: "0 \<le> b \<Longrightarrow> b < 16 \<Longrightarrow> (16 * a + b) div 16 = (a::int)"
  by simp

lemma nibbles_mod: "0 \<le> b \<Longrightarrow> b < 16 \<Longrightarrow> (16 * a + b) mod 16 = (b::int)"
  by simp

lemma bcd_inverse: "0 \<le> n \<Longrightarrow> n \<le> 99 \<Longrightarrow> bcdtodec (dectobcd n) = n"
proof -
  assume n: "0 \<le> n" "n \<le> 99"
  define t where "t = n div 10"
  define r where "r = n mod 10"
  have r: "0 \<le> r" "r < 16" unfolding r_def by simp_all
  have t: "0 \<le> t" "t < 16" using n unfolding t_def by simp_all
  have "bcdtodec (dectobcd n) = t * 10 + r"
    unfolding dectobcd_arith bcdtodec_arith t_def [symmetric] r_def [symmetric]
    using r t by (simp add: nibbles_div nibbles_mod)
  then show ?thesis by (simp add: t_def r_def)
qed

text \<open>
  C8. BCD round trip: for every integer \<open>n\<close> with \<open>0 \<le> n \<le> 99\<close>, decoding the
  encoding of \<open>n\<close> gives \<open>n\<close> back, and the encoding carries the tens digit in
  its high nibble and the ones digit in its low nibble.
\<close>

theorem bcd_round_trip:
  "0 \<le> n \<Longrightarrow> n \<le> 99 \<Longrightarrow>
     bcdtodec (dectobcd n) = n \<and>
     drop_bit 4 (dectobcd n) = n div 10 \<and>
     dectobcd n AND 0x0F = n mod 10"
proof -
  assume n: "0 \<le> n" "n \<le> 99"
  have hi: "drop_bit 4 (dectobcd n) = n div 10"
    unfolding dectobcd_arith drop_bit_eq_div by simp
  have lo: "dectobcd n AND 0x0F = n mod 10"
    unfolding dectobcd_arith and_15_mod by simp
  from n show ?thesis by (simp add: bcd_inverse hi lo)
qed

theorem bcd_round_trip_witness:
  "(0::int) \<le> 45 \<and> (45::int) \<le> 99 \<and> dectobcd 45 = 0x45 \<and>
   bcdtodec (dectobcd 45) = 45 \<and>
   drop_bit 4 (dectobcd 45) = (45::int) div 10 \<and>
   dectobcd 45 AND 0x0F = (45::int) mod 10"
  using bcd_round_trip [of 45] by (simp add: dectobcd_def)

section \<open>The bus, bytes and the register operations\<close>

lemma readfrom_mem_1: "readfrom_mem bus a r (Suc 0) = [mem bus a r]"
  by (simp add: readfrom_mem_def)

lemma readfrom_mem_7:
  "readfrom_mem bus a 0 7 =
     [mem bus a 0, mem bus a 1, mem bus a 2, mem bus a 3, mem bus a 4, mem bus a 5, mem bus a 6]"
  by (simp add: readfrom_mem_def upt_rec eval_nat_numeral)

lemma mem_writeto_mem:
  "mem (writeto_mem bus a r bs) a k =
     (if r \<le> k \<and> k < r + length bs then bs ! (k - r) else mem bus a k)"
  by (simp add: writeto_mem_def)

lemma writes_writeto_mem:
  "writes (writeto_mem bus a r bs) = writes bus @ [(a, r, bs)]"
  by (simp add: writeto_mem_def)

lemma and_then_Inl: "and_then (Inl e, s) f = (Inl e, s)"
  by (simp add: and_then_def)

lemma and_then_Inr: "and_then (Inr x, s) f = f x s"
  by (simp add: and_then_def)

lemma and_then_completes:
  assumes "and_then m f = (Inr r, s')"
  obtains x s1 where "m = (Inr x, s1)" and "f x s1 = (Inr r, s')"
proof (cases m)
  case (Pair a s1)
  with assms show ?thesis
    by (cases a) (auto simp add: and_then_def intro: that)
qed

text \<open>Where the value fits a byte, the store succeeds and keeps the value.\<close>

lemma byte_of_fits: "0 \<le> v \<Longrightarrow> v \<le> 255 \<Longrightarrow> byte_of v = Inr (word_of_int v)"
  by (simp add: byte_of_def)

lemma byte_of_completes: "byte_of v = Inr b \<Longrightarrow> 0 \<le> v \<and> v \<le> 255 \<and> b = word_of_int v"
  by (auto simp add: byte_of_def split: if_splits)

lemma uint_and_range: "0 \<le> uint (c::byte) AND k \<and> uint c AND k \<le> 255"
proof -
  have "uint c AND k \<le> uint c" by (rule AND_upper1) simp
  moreover have "uint c < 256" using uint_bounded [of c] by simp
  ultimately show ?thesis by simp
qed

lemma or_byte_range:
  assumes "0 \<le> a" "a \<le> 255" "0 \<le> b" "b \<le> 255"
  shows "0 \<le> a OR b \<and> a OR b \<le> (255::int)"
proof -
  have "a OR b < 2 ^ 8" using assms by (intro OR_upper) simp_all
  with assms show ?thesis by simp
qed

lemma byte_of_and: "byte_of (uint c AND k) = Inr (c AND word_of_int k)"
proof -
  have "word_of_int (uint c AND k) = (c AND word_of_int k :: byte)"
    by (rule bit_word_eqI) (simp add: bit_simps)
  then show ?thesis using uint_and_range [of c k] by (simp add: byte_of_fits)
qed

lemma byte_of_and_or:
  assumes "0 \<le> m" "m \<le> 255"
  shows "byte_of ((uint c AND k) OR m) = Inr ((c AND word_of_int k) OR word_of_int m)"
proof -
  have "word_of_int ((uint c AND k) OR m) = ((c AND word_of_int k) OR word_of_int m :: byte)"
    by (rule bit_word_eqI) (simp add: bit_simps)
  then show ?thesis
    using or_byte_range [OF _ _ assms, of "uint c AND k"] uint_and_range [of c k]
    by (simp add: byte_of_fits)
qed

lemma write_byte_and:
  "write_byte reg (uint c AND k) s =
     (Inr (), s\<lparr>i2c := writeto_mem (i2c s) (addr s) reg [c AND word_of_int k]\<rparr>)"
  by (simp add: write_byte_def byte_of_and)

lemma write_byte_and_or:
  "0 \<le> m \<Longrightarrow> m \<le> 255 \<Longrightarrow>
     write_byte reg ((uint c AND k) OR m) s =
       (Inr (), s\<lparr>i2c := writeto_mem (i2c s) (addr s) reg
                           [(c AND word_of_int k) OR word_of_int m]\<rparr>)"
  by (simp add: write_byte_def byte_of_and_or)

lemma OSF_reset_eq:
  "length (buf s) = 1 \<Longrightarrow>
     OSF_reset s =
       (Inr (), s\<lparr>buf := [mem (i2c s) (addr s) STATUS_REG],
                  i2c := writeto_mem (i2c s) (addr s) STATUS_REG
                           [mem (i2c s) (addr s) STATUS_REG AND 0x7F]\<rparr>)"
  by (simp add: OSF_reset_def Let_def readfrom_mem_1 write_byte_and)

lemma OSF_reset_mem:
  "length (buf s) = 1 \<Longrightarrow> addr s = a \<Longrightarrow>
     mem (i2c (snd (OSF_reset s))) a k =
       (if k = STATUS_REG then mem (i2c s) a STATUS_REG AND 0x7F else mem (i2c s) a k)"
  by (auto simp add: OSF_reset_eq mem_writeto_mem)


lemma OSF_reset_fields:
  "length (buf s) = 1 \<Longrightarrow>
   fst (OSF_reset s) = Inr () \<and>
   addr (snd (OSF_reset s)) = addr s \<and> timebuf (snd (OSF_reset s)) = timebuf s \<and>
   al1_buf (snd (OSF_reset s)) = al1_buf s \<and> al2buf (snd (OSF_reset s)) = al2buf s \<and>
   console (snd (OSF_reset s)) = console s \<and> length (buf (snd (OSF_reset s))) = 1"
  by (simp add: OSF_reset_eq)

lemma OSF_bit: "OSF s = bit (mem (i2c s) (addr s) STATUS_REG) 7"
  using bit_iff_and_push_bit_not_eq_0 [of "uint (mem (i2c s) (addr s) STATUS_REG)" 7]
  by (simp add: OSF_def readfrom_mem_1 bit_simps)

lemma byte_mask_7f:
  "\<not> bit (c AND 0x7F :: byte) 7 \<and> (\<forall>n<7. bit (c AND 0x7F) n = bit c n)"
  by (auto simp add: bit_simps bit_numeral_rec split: nat.splits)

lemma square_wave_off_eq:
  "length (buf s) = 1 \<Longrightarrow>
     square_wave (Some 0) s =
       (Inr (Inr True),
        s\<lparr>buf := [mem (i2c s) (addr s) CONTROL_REG],
          i2c := writeto_mem (i2c s) (addr s) CONTROL_REG
                   [(mem (i2c s) (addr s) CONTROL_REG AND 0xF8) OR 0x04]\<rparr>)"
  by (simp add: square_wave_def Let_def readfrom_mem_1 write_byte_and_or and_then_Inr)

lemma alarm_int_1_eq:
  "length (buf s) = 1 \<Longrightarrow>
     alarm_int enable 1 s =
      (let new = (if enable then (mem (i2c s) (addr s) CONTROL_REG AND 0xFA) OR 0x05
                  else mem (i2c s) (addr s) CONTROL_REG AND 0xFD)
       in (Inr [new],
           s\<lparr>buf := [mem (i2c s) (addr s) CONTROL_REG],
             i2c := writeto_mem (i2c s) (addr s) CONTROL_REG [new]\<rparr>))"
  by (simp add: alarm_int_def Let_def readfrom_mem_1 write_byte_and_or write_byte_and
      and_then_Inr mem_writeto_mem)

lemma alarm_int_2_eq:
  "length (buf s) = 1 \<Longrightarrow>
     alarm_int enable 2 s =
      (let new = (if enable then (mem (i2c s) (addr s) CONTROL_REG AND 0xF9) OR 0x06
                  else mem (i2c s) (addr s) CONTROL_REG AND 0xFB)
       in (Inr [new],
           s\<lparr>buf := [mem (i2c s) (addr s) CONTROL_REG],
             i2c := writeto_mem (i2c s) (addr s) CONTROL_REG [new]\<rparr>))"
  by (simp add: alarm_int_def Let_def readfrom_mem_1 write_byte_and_or write_byte_and
      and_then_Inr mem_writeto_mem)

lemma check_alarm_eq:
  "length (buf s) = 1 \<Longrightarrow>
     check_alarm k s =
       (if uint (mem (i2c s) (addr s) STATUS_REG) AND k = 0
        then (Inr False, s\<lparr>buf := [mem (i2c s) (addr s) STATUS_REG]\<rparr>)
        else (Inr True, s\<lparr>buf := [mem (i2c s) (addr s) STATUS_REG],
               i2c := writeto_mem (i2c s) (addr s) STATUS_REG
                        [mem (i2c s) (addr s) STATUS_REG AND word_of_int (NOT k)]\<rparr>))"
  by (simp add: check_alarm_def Let_def readfrom_mem_1 write_byte_and and_then_Inr)

lemma pending_bit: "(uint (c::byte) AND push_bit n 1 \<noteq> 0) = bit c n"
  using bit_iff_and_push_bit_not_eq_0 [of "uint c" n] by (simp add: bit_simps)

lemma store_timebuf_completes:
  "store_timebuf i v s = (Inr u, s1) \<Longrightarrow> \<exists>b. s1 = s\<lparr>timebuf := (timebuf s)[i := b]\<rparr>"
  by (auto simp add: store_timebuf_def split: sum.splits)

lemma store_timebuf_fits:
  "0 \<le> v \<Longrightarrow> v \<le> 255 \<Longrightarrow>
     store_timebuf i v s = (Inr (), s\<lparr>timebuf := (timebuf s)[i := word_of_int v]\<rparr>)"
  by (simp add: store_timebuf_def byte_of_fits)

text \<open>
  A call of \<open>datetime_set\<close> that completes has returned \<open>True\<close>, has kept the
  address and the buffer lengths, and has written the status register with
  bit 7 masked out.
\<close>

lemma datetime_set_completes:
  assumes run: "datetime_set dt s = (Inr r, s')"
    and b: "length (buf s) = 1" and tb: "length (timebuf s) = 7"
  shows "r = True \<and> addr s' = addr s \<and> length (buf s') = 1 \<and>
         length (timebuf s') = 7 \<and> al1_buf s' = al1_buf s \<and> al2buf s' = al2buf s \<and>
         mem (i2c s') (addr s) STATUS_REG = mem (i2c s) (addr s) STATUS_REG AND 0x7F"
  using run unfolding datetime_set_def
  apply (elim and_then_completes)
  apply (auto dest!: store_timebuf_completes split: sum.splits
      simp add: b tb OSF_reset_eq mem_writeto_mem DATETIME_REG_def STATUS_REG_def)
  done

lemma datetime_set_short:
  "length dt < 5 \<Longrightarrow> fst (datetime_set dt s) = Inl IndexError"
  by (simp add: datetime_set_def item_def store_timebuf_fits and_then_Inr and_then_Inl)

section \<open>The buffer lengths\<close>

text \<open>
  \<open>buffers_ok\<close> holds of every driver object: the constructor establishes it and
  every method keeps it, also when it raises.
\<close>

lemma and_then_keeps:
  assumes "Q (snd m)" and "\<And>x s1. Q s1 \<Longrightarrow> Q (snd (f x s1))"
  shows "Q (snd (and_then m f))"
proof (cases m)
  case (Pair a s1)
  with assms show ?thesis by (cases a) (simp_all add: and_then_def)
qed

lemma buffers_ok_init: "buffers_ok (init bus a)"
  by (simp add: buffers_ok_def init_def)

lemma buffers_ok_store_timebuf: "buffers_ok s \<Longrightarrow> buffers_ok (snd (store_timebuf i v s))"
  by (simp add: buffers_ok_def store_timebuf_def split: sum.splits)

lemma buffers_ok_store_al1_buf: "buffers_ok s \<Longrightarrow> buffers_ok (snd (store_al1_buf i v s))"
  by (simp add: buffers_ok_def store_al1_buf_def split: sum.splits)

lemma buffers_ok_store_al2buf: "buffers_ok s \<Longrightarrow> buffers_ok (snd (store_al2buf i v s))"
  by (simp add: buffers_ok_def store_al2buf_def split: sum.splits)

lemma buffers_ok_write_byte: "buffers_ok s \<Longrightarrow> buffers_ok (snd (write_byte reg v s))"
  by (simp add: buffers_ok_def write_byte_def split: sum.splits)

lemma buffers_ok_bus: "buffers_ok s \<Longrightarrow> buffers_ok (s\<lparr>i2c := bus\<rparr>)"
  by (simp add: buffers_ok_def)

lemma buffers_ok_OSF_reset: "buffers_ok s \<Longrightarrow> buffers_ok (snd (OSF_reset s))"
  by (simp add: buffers_ok_def OSF_reset_eq)

lemma buffers_ok_output_32kHz: "buffers_ok s \<Longrightarrow> buffers_ok (snd (output_32kHz enable s))"
  by (simp add: output_32kHz_def Let_def buffers_ok_write_byte)

lemma buffers_ok_check_alarm: "buffers_ok s \<Longrightarrow> buffers_ok (snd (check_alarm alarm s))"
  by (simp add: buffers_ok_def check_alarm_eq)

lemma buffers_ok_read_control:
  "buffers_ok s \<Longrightarrow>
     buffers_ok (s\<lparr>buf := readfrom_mem (i2c s) (addr s) CONTROL_REG (length (buf s))\<rparr>)"
  by (simp add: buffers_ok_def readfrom_mem_def)

lemma buffers_ok_alarm_int: "buffers_ok s \<Longrightarrow> buffers_ok (snd (alarm_int enable alarm s))"
  unfolding alarm_int_def
  by (intro and_then_keeps [where Q = buffers_ok])
     (simp_all add: Let_def buffers_ok_write_byte buffers_ok_read_control)

lemma buffers_ok_square_wave: "buffers_ok s \<Longrightarrow> buffers_ok (snd (square_wave freq s))"
proof (cases freq)
  case None
  assume "buffers_ok s"
  then show ?thesis by (simp add: None square_wave_def)
next
  case (Some f)
  assume "buffers_ok s"
  then show ?thesis
    unfolding Some square_wave_def option.case Let_def
    by (intro and_then_keeps [where Q = buffers_ok])
       (simp_all add: buffers_ok_write_byte buffers_ok_read_control)
qed

lemma buffers_ok_datetime_get: "buffers_ok s \<Longrightarrow> buffers_ok (snd (datetime_get s))"
  by (simp add: buffers_ok_def datetime_get_def Let_def readfrom_mem_def)

lemma buffers_ok_datetime_set: "buffers_ok s \<Longrightarrow> buffers_ok (snd (datetime_set dt s))"
  unfolding datetime_set_def
  by (intro and_then_keeps [where Q = buffers_ok])
     (simp_all add: buffers_ok_store_timebuf buffers_ok_OSF_reset buffers_ok_bus
        split: sum.splits)

lemma buffers_ok_datetime: "buffers_ok s \<Longrightarrow> buffers_ok (snd (datetime arg s))"
proof (cases arg)
  case None
  assume "buffers_ok s"
  then show ?thesis using buffers_ok_datetime_get [of s] by (simp add: None datetime_def split_beta)
next
  case (Some dt)
  assume "buffers_ok s"
  then have "buffers_ok (snd (datetime_set dt s))" by (rule buffers_ok_datetime_set)
  then show ?thesis
    by (cases "datetime_set dt s") (simp add: Some datetime_def split: sum.splits)
qed

lemma buffers_ok_alarm1:
  assumes ok: "buffers_ok s"
  shows "buffers_ok (snd (alarm1 time match int_en weekday s))"
proof (cases time)
  case None
  with ok show ?thesis by (simp add: alarm1_def buffers_ok_def Let_def readfrom_mem_def)
next
  case (Some t)
  from ok show ?thesis
    unfolding Some alarm1_def option.case Let_def
    by (intro and_then_keeps [where Q = buffers_ok])
       (simp_all add: buffers_ok_store_al1_buf buffers_ok_alarm_int buffers_ok_check_alarm
          buffers_ok_bus)
qed

lemma buffers_ok_alarm2:
  assumes ok: "buffers_ok s"
  shows "buffers_ok (snd (alarm2 time match int_en weekday s))"
proof (cases time)
  case None
  with ok show ?thesis by (simp add: alarm2_def buffers_ok_def Let_def readfrom_mem_def)
next
  case (Some t)
  from ok show ?thesis
    unfolding Some alarm2_def option.case Let_def
    by (intro and_then_keeps [where Q = buffers_ok])
       (simp_all add: buffers_ok_store_al2buf buffers_ok_alarm_int buffers_ok_check_alarm
          buffers_ok_bus)
qed

section \<open>Control and status registers\<close>

lemma byte_frame_f8_04:
  "bit ((c AND 0xF8) OR 0x04 :: byte) 2 \<and> \<not> bit ((c AND 0xF8) OR 0x04) 0 \<and>
   \<not> bit ((c AND 0xF8) OR 0x04) 1 \<and>
   (\<forall>n. 3 \<le> n \<longrightarrow> bit ((c AND 0xF8) OR 0x04) n = bit c n)"
proof -
  have "bit ((c AND 0xF8) OR 0x04) n = bit c n" if "3 \<le> n" for n
    using that bit_imp_le_length [of c n]
    by (auto simp add: bit_simps bit_numeral_rec split: nat.splits)
  then show ?thesis by (simp add: bit_simps)
qed

text \<open>
  C2 (as amended). For every prior control byte, \<open>square_wave(False)\<close> returns
  \<open>True\<close> and writes back one control byte in which bit 2 (INTCN) is 1, bits 0
  and 1 (the two alarm interrupt enables) are 0, and bits 3 to 7, the two
  frequency-select bits among them, are as they were.
\<close>

theorem square_wave_disable:
  assumes "buffers_ok s"
  shows "let ctrl = mem (i2c s) (addr s) CONTROL_REG;
             s' = snd (square_wave (Some 0) s);
             new = mem (i2c s') (addr s') CONTROL_REG
         in fst (square_wave (Some 0) s) = Inr (Inr True) \<and>
            writes (i2c s') = writes (i2c s) @ [(addr s, CONTROL_REG, [new])] \<and>
            bit new 2 \<and> \<not> bit new 0 \<and> \<not> bit new 1 \<and>
            (\<forall>n. 3 \<le> n \<longrightarrow> bit new n = bit ctrl n)"
proof -
  from assms have b: "length (buf s) = 1" by (simp add: buffers_ok_def)
  show ?thesis
    unfolding Let_def square_wave_off_eq [OF b]
    using byte_frame_f8_04 [of "mem (i2c s) (addr s) CONTROL_REG"]
    by (simp add: mem_writeto_mem writes_writeto_mem)
qed

theorem square_wave_disable_witness:
  "let s = init \<lparr>mem = \<lambda>a r. 0x1B, writes = []\<rparr> 0x68;
       s' = snd (square_wave (Some 0) s)
   in buffers_ok s \<and> fst (square_wave (Some 0) s) = Inr (Inr True) \<and>
      writes (i2c s') = [(0x68, CONTROL_REG, [0x1C])] \<and>
      mem (i2c s') 0x68 CONTROL_REG = 0x1C \<and>
      bit (mem (i2c s') (addr s') CONTROL_REG) 2"
proof -
  have ok: "buffers_ok (init \<lparr>mem = \<lambda>a r. 0x1B, writes = []\<rparr> 0x68)"
    by (simp add: buffers_ok_def init_def)
  show ?thesis
    using square_wave_disable [OF ok]
    by (simp add: Let_def init_def square_wave_def readfrom_mem_def writeto_mem_def
        write_byte_def and_then_def byte_of_def buffers_ok_def)
qed

text \<open>
  C2 as stated fails at the control byte \<open>0x1B\<close>: the byte written is \<open>0x1C\<close>, so
  the frequency-select bits 3 and 4 stay 1 and the alarm interrupt enables are
  not what they were.
\<close>

theorem square_wave_disable_counterexample:
  "let s = init \<lparr>mem = \<lambda>a r. 0x1B, writes = []\<rparr> 0x68;
       ctrl = mem (i2c s) (addr s) CONTROL_REG;
       s' = snd (square_wave (Some 0) s);
       new = mem (i2c s') (addr s') CONTROL_REG
   in new = 0x1C \<and>
      \<not> (bit new 2 \<and> \<not> bit new 3 \<and> \<not> bit new 4 \<and>
          bit new 0 = bit ctrl 0 \<and> bit new 1 = bit ctrl 1 \<and> bit new 5 = bit ctrl 5 \<and>
          bit new 6 = bit ctrl 6 \<and> bit new 7 = bit ctrl 7)"
  by (simp add: Let_def init_def square_wave_def readfrom_mem_def writeto_mem_def
      write_byte_def and_then_def byte_of_def)

lemma byte_frame_enable_1:
  "bit ((c AND 0xFA) OR 0x05 :: byte) 0 \<and> bit ((c AND 0xFA) OR 0x05) 2 \<and>
   (\<forall>n. n \<noteq> 0 \<and> n \<noteq> 2 \<longrightarrow> bit ((c AND 0xFA) OR 0x05) n = bit c n)"
proof -
  have "bit ((c AND 0xFA) OR 0x05) n = bit c n" if "n \<noteq> 0" "n \<noteq> 2" for n
    using that bit_imp_le_length [of c n]
    by (auto simp add: bit_simps bit_numeral_rec split: nat.splits)
  then show ?thesis by (simp add: bit_simps)
qed

lemma byte_frame_enable_2:
  "bit ((c AND 0xF9) OR 0x06 :: byte) 1 \<and> bit ((c AND 0xF9) OR 0x06) 2 \<and>
   (\<forall>n. n \<noteq> 1 \<and> n \<noteq> 2 \<longrightarrow> bit ((c AND 0xF9) OR 0x06) n = bit c n)"
proof -
  have "bit ((c AND 0xF9) OR 0x06) n = bit c n" if "n \<noteq> 1" "n \<noteq> 2" for n
    using that bit_imp_le_length [of c n]
    by (auto simp add: bit_simps bit_numeral_rec split: nat.splits)
  then show ?thesis by (simp add: bit_simps)
qed

lemma byte_frame_disable_1:
  "\<not> bit (c AND 0xFD :: byte) 1 \<and> (\<forall>n. n \<noteq> 1 \<longrightarrow> bit (c AND 0xFD) n = bit c n)"
proof -
  have "bit (c AND 0xFD) n = bit c n" if "n \<noteq> 1" for n
    using that bit_imp_le_length [of c n]
    by (auto simp add: bit_simps bit_numeral_rec split: nat.splits)
  then show ?thesis by (simp add: bit_simps)
qed

lemma byte_frame_disable_2:
  "\<not> bit (c AND 0xFB :: byte) 2 \<and> (\<forall>n. n \<noteq> 2 \<longrightarrow> bit (c AND 0xFB) n = bit c n)"
proof -
  have "bit (c AND 0xFB) n = bit c n" if "n \<noteq> 2" for n
    using that bit_imp_le_length [of c n]
    by (auto simp add: bit_simps bit_numeral_rec split: nat.splits)
  then show ?thesis by (simp add: bit_simps)
qed

text \<open>What \<open>alarm_int\<close> writes, for every prior control byte.\<close>

lemma alarm_int_enable_1_bits:
  assumes "buffers_ok s"
  shows "let ctrl = mem (i2c s) (addr s) CONTROL_REG;
             s' = snd (alarm_int True 1 s);
             new = mem (i2c s') (addr s') CONTROL_REG
         in writes (i2c s') = writes (i2c s) @ [(addr s, CONTROL_REG, [new])] \<and>
            bit new 0 \<and> bit new 2 \<and>
            (\<forall>n. n \<noteq> 0 \<and> n \<noteq> 2 \<longrightarrow> bit new n = bit ctrl n)"
proof -
  from assms have b: "length (buf s) = 1" by (simp add: buffers_ok_def)
  show ?thesis
    using byte_frame_enable_1 [of "mem (i2c s) (addr s) CONTROL_REG"]
    by (simp add: Let_def alarm_int_1_eq [OF b] mem_writeto_mem writes_writeto_mem)
qed

lemma alarm_int_enable_2_bits:
  assumes "buffers_ok s"
  shows "let ctrl = mem (i2c s) (addr s) CONTROL_REG;
             s' = snd (alarm_int True 2 s);
             new = mem (i2c s') (addr s') CONTROL_REG
         in writes (i2c s') = writes (i2c s) @ [(addr s, CONTROL_REG, [new])] \<and>
            bit new 1 \<and> bit new 2 \<and>
            (\<forall>n. n \<noteq> 1 \<and> n \<noteq> 2 \<longrightarrow> bit new n = bit ctrl n)"
proof -
  from assms have b: "length (buf s) = 1" by (simp add: buffers_ok_def)
  show ?thesis
    using byte_frame_enable_2 [of "mem (i2c s) (addr s) CONTROL_REG"]
    by (simp add: Let_def alarm_int_2_eq [OF b] mem_writeto_mem writes_writeto_mem)
qed

lemma alarm_int_disable_1_bits:
  assumes "buffers_ok s"
  shows "let ctrl = mem (i2c s) (addr s) CONTROL_REG;
             s' = snd (alarm_int False 1 s);
             new = mem (i2c s') (addr s') CONTROL_REG
         in writes (i2c s') = writes (i2c s) @ [(addr s, CONTROL_REG, [new])] \<and>
            \<not> bit new 1 \<and> (\<forall>n. n \<noteq> 1 \<longrightarrow> bit new n = bit ctrl n)"
proof -
  from assms have b: "length (buf s) = 1" by (simp add: buffers_ok_def)
  show ?thesis
    using byte_frame_disable_1 [of "mem (i2c s) (addr s) CONTROL_REG"]
    by (simp add: Let_def alarm_int_1_eq [OF b] mem_writeto_mem writes_writeto_mem)
qed

lemma alarm_int_disable_2_bits:
  assumes "buffers_ok s"
  shows "let ctrl = mem (i2c s) (addr s) CONTROL_REG;
             s' = snd (alarm_int False 2 s);
             new = mem (i2c s') (addr s') CONTROL_REG
         in writes (i2c s') = writes (i2c s) @ [(addr s, CONTROL_REG, [new])] \<and>
            \<not> bit new 2 \<and> (\<forall>n. n \<noteq> 2 \<longrightarrow> bit new n = bit ctrl n)"
proof -
  from assms have b: "length (buf s) = 1" by (simp add: buffers_ok_def)
  show ?thesis
    using byte_frame_disable_2 [of "mem (i2c s) (addr s) CONTROL_REG"]
    by (simp add: Let_def alarm_int_2_eq [OF b] mem_writeto_mem writes_writeto_mem)
qed

text \<open>
  C3. The claim says that enabling an alarm interrupt leaves INTCN at 0. On the
  control byte \<open>0x00\<close>, \<open>alarm_int(True, 1)\<close> writes \<open>0x05\<close> and
  \<open>alarm_int(True, 2)\<close> writes \<open>0x06\<close>: the enable bit of the alarm is set, and so
  is bit 2, the bit that \<open>square_wave(False)\<close> sets as INTCN.
\<close>

theorem alarm_int_enable_sets_intcn:
  "let s = init \<lparr>mem = \<lambda>a r. 0x00, writes = []\<rparr> 0x68;
       s1 = snd (alarm_int True 1 s);
       s2 = snd (alarm_int True 2 s);
       sq = snd (square_wave (Some 0) s)
   in writes (i2c s1) = [(0x68, CONTROL_REG, [0x05])] \<and>
      bit (mem (i2c s1) 0x68 CONTROL_REG) 0 \<and> bit (mem (i2c s1) 0x68 CONTROL_REG) 2 \<and>
      writes (i2c s2) = [(0x68, CONTROL_REG, [0x06])] \<and>
      bit (mem (i2c s2) 0x68 CONTROL_REG) 1 \<and> bit (mem (i2c s2) 0x68 CONTROL_REG) 2 \<and>
      writes (i2c sq) = [(0x68, CONTROL_REG, [0x04])]"
  by (simp add: Let_def init_def alarm_int_def square_wave_def readfrom_mem_def
      writeto_mem_def write_byte_def and_then_def byte_of_def)

text \<open>
  C4. The claim says that disabling clears the bit that enabling sets.
  Enabling alarm 1 sets bits 0 and 2 and enabling alarm 2 sets bits 1 and 2. On
  the control byte \<open>0x07\<close>, \<open>alarm_int(False, 1)\<close> writes \<open>0x05\<close>: bit 0 is still
  set and bit 1 is cleared; \<open>alarm_int(False, 2)\<close> writes \<open>0x03\<close>: bit 1 is still
  set and bit 2 is cleared.
\<close>

theorem alarm_int_disable_clears_other_bit:
  "let s = init \<lparr>mem = \<lambda>a r. 0x07, writes = []\<rparr> 0x68;
       e1 = snd (alarm_int True 1 (init \<lparr>mem = \<lambda>a r. 0x00, writes = []\<rparr> 0x68));
       e2 = snd (alarm_int True 2 (init \<lparr>mem = \<lambda>a r. 0x00, writes = []\<rparr> 0x68));
       d1 = snd (alarm_int False 1 s);
       d2 = snd (alarm_int False 2 s)
   in writes (i2c e1) = [(0x68, CONTROL_REG, [0x05])] \<and>
      writes (i2c d1) = [(0x68, CONTROL_REG, [0x05])] \<and>
      bit (mem (i2c d1) 0x68 CONTROL_REG) 0 \<and> \<not> bit (mem (i2c d1) 0x68 CONTROL_REG) 1 \<and>
      writes (i2c e2) = [(0x68, CONTROL_REG, [0x06])] \<and>
      writes (i2c d2) = [(0x68, CONTROL_REG, [0x03])] \<and>
      bit (mem (i2c d2) 0x68 CONTROL_REG) 1 \<and> \<not> bit (mem (i2c d2) 0x68 CONTROL_REG) 2"
  by (simp add: Let_def init_def alarm_int_def readfrom_mem_def writeto_mem_def
      write_byte_def and_then_def byte_of_def)

lemma byte_clear_bit:
  "p < 8 \<Longrightarrow>
     \<not> bit (c AND word_of_int (NOT (push_bit p 1)) :: byte) p \<and>
     (\<forall>n. n \<noteq> p \<longrightarrow> bit (c AND word_of_int (NOT (push_bit p 1))) n = bit c n)"
  by (auto simp add: bit_simps dest: bit_imp_le_length)

lemma pending_after_clear:
  "uint (c AND word_of_int (NOT (push_bit p 1)) :: byte) AND push_bit p 1 = 0"
  by (rule bit_eqI) (auto simp add: bit_simps)

lemma check_alarm_bit:
  assumes "buffers_ok s" and "p < 8" and k: "k = push_bit p 1"
  shows "let st = mem (i2c s) (addr s) STATUS_REG;
             r = fst (check_alarm k s);
             s' = snd (check_alarm k s);
             new = mem (i2c s') (addr s') STATUS_REG
         in (bit st p \<longrightarrow>
               r = Inr True \<and>
               writes (i2c s') = writes (i2c s) @ [(addr s, STATUS_REG, [new])] \<and>
               \<not> bit new p \<and> (\<forall>n. n \<noteq> p \<longrightarrow> bit new n = bit st n) \<and>
               fst (check_alarm k s') = Inr False \<and>
               i2c (snd (check_alarm k s')) = i2c s') \<and>
            (\<not> bit st p \<longrightarrow> r = Inr False \<and> i2c s' = i2c s)"
proof -
  from assms have b: "length (buf s) = 1" by (simp add: buffers_ok_def)
  let ?st = "mem (i2c s) (addr s) STATUS_REG"
  let ?new = "?st AND word_of_int (NOT k)"
  have pend: "(uint ?st AND k = 0) = (\<not> bit ?st p)"
    using pending_bit [of ?st p] unfolding k by blast
  have after: "uint ?new AND k = 0"
    unfolding k by (rule pending_after_clear)
  have clear: "\<not> bit ?new p \<and> (\<forall>n. n \<noteq> p \<longrightarrow> bit ?new n = bit ?st n)"
    unfolding k by (rule byte_clear_bit [OF assms(2)])
  show ?thesis
  proof (cases "bit ?st p")
    case False
    then show ?thesis using b by (simp add: Let_def check_alarm_eq pend)
  next
    case True
    then show ?thesis
      using b clear
      by (simp add: Let_def check_alarm_eq pend after mem_writeto_mem writes_writeto_mem)
  qed
qed

text \<open>
  C6. For every status byte and \<open>alarm\<close> 1 or 2, with pending bit \<open>alarm - 1\<close>:
  when the bit is set, \<open>check_alarm\<close> returns \<open>True\<close> and issues one write of the
  status byte with that bit cleared and every other bit unchanged, and a second
  call right after returns \<open>False\<close> and leaves the bus as it is; when the bit
  is clear, it returns \<open>False\<close> and leaves the bus (registers and writes) as
  it is.
\<close>

theorem check_alarm_semantics:
  assumes "buffers_ok s" and "alarm = 1 \<or> alarm = 2"
  shows "let st = mem (i2c s) (addr s) STATUS_REG;
             p = nat (alarm - 1);
             r = fst (check_alarm alarm s);
             s' = snd (check_alarm alarm s);
             new = mem (i2c s') (addr s') STATUS_REG
         in (bit st p \<longrightarrow>
               r = Inr True \<and>
               writes (i2c s') = writes (i2c s) @ [(addr s, STATUS_REG, [new])] \<and>
               \<not> bit new p \<and> (\<forall>n. n \<noteq> p \<longrightarrow> bit new n = bit st n) \<and>
               fst (check_alarm alarm s') = Inr False \<and>
               i2c (snd (check_alarm alarm s')) = i2c s') \<and>
            (\<not> bit st p \<longrightarrow> r = Inr False \<and> i2c s' = i2c s)"
proof -
  from assms(2) show ?thesis
  proof
    assume "alarm = 1"
    then show ?thesis using check_alarm_bit [OF assms(1), of 0 alarm] by (simp add: Let_def)
  next
    assume "alarm = 2"
    then show ?thesis using check_alarm_bit [OF assms(1), of 1 alarm] by (simp add: Let_def)
  qed
qed

theorem check_alarm_semantics_witness:
  "let s = init \<lparr>mem = \<lambda>a r. 0x8B, writes = []\<rparr> 0x68;
       s' = snd (check_alarm 1 s)
   in buffers_ok s \<and> bit (mem (i2c s) (addr s) STATUS_REG) (nat (1 - 1)) \<and>
      fst (check_alarm 1 s) = Inr True \<and>
      writes (i2c s') = [(0x68, STATUS_REG, [0x8A])] \<and>
      fst (check_alarm 1 s') = Inr False \<and>
      writes (i2c (snd (check_alarm 1 s'))) = [(0x68, STATUS_REG, [0x8A])] \<and>
      fst (check_alarm 2 s') = Inr True \<and>
      writes (i2c (snd (check_alarm 2 s'))) =
        [(0x68, STATUS_REG, [0x8A]), (0x68, STATUS_REG, [0x88])]"
proof -
  have ok: "buffers_ok (init \<lparr>mem = \<lambda>a r. 0x8B, writes = []\<rparr> 0x68)"
    by (simp add: buffers_ok_def init_def)
  show ?thesis
    using check_alarm_semantics [OF ok, of 1]
    by (simp add: Let_def init_def check_alarm_def readfrom_mem_def writeto_mem_def
        write_byte_def and_then_def byte_of_def buffers_ok_def STATUS_REG_def)
qed

section \<open>Date and time\<close>

lemma uint_word_fits: "0 \<le> k \<Longrightarrow> k < 256 \<Longrightarrow> uint (word_of_int k :: byte) = k"
  by (simp add: uint_word_of_int take_bit_eq_mod)

lemma and_255_mod: "(x::int) AND 0xFF = x mod 256"
  using take_bit_eq_mask [of 8 x] by (simp add: take_bit_eq_mod mask_eq_exp_minus_1)

lemma and_127_mod: "(x::int) AND 0x7F = x mod 128"
  using take_bit_eq_mask [of 7 x] by (simp add: take_bit_eq_mod mask_eq_exp_minus_1)

lemma and_63_mod: "(x::int) AND 0x3F = x mod 64"
  using take_bit_eq_mask [of 6 x] by (simp add: take_bit_eq_mod mask_eq_exp_minus_1)

lemma and_31_mod: "(x::int) AND 0x1F = x mod 32"
  using take_bit_eq_mask [of 5 x] by (simp add: take_bit_eq_mod mask_eq_exp_minus_1)

lemma and_64_bit: "((x::int) AND 0x40 = 0) = (\<not> bit x 6)"
  using bit_iff_and_push_bit_not_eq_0 [of x 6] by simp

lemma and_32_bit: "((x::int) AND 0x20 = 0) = (\<not> bit x 5)"
  using bit_iff_and_push_bit_not_eq_0 [of x 5] by simp

lemma small_no_bit6: "0 \<le> x \<Longrightarrow> x < 64 \<Longrightarrow> \<not> bit (x::int) 6"
  by (simp add: bit_iff_odd)

lemma dectobcd_range:
  assumes "0 \<le> n" and "n < 10 * m" and "0 < m"
  shows "0 \<le> dectobcd n \<and> dectobcd n < 16 * m"
proof -
  have q: "0 \<le> n div 10" "n div 10 < m"
    using assms by (simp_all add: div_less_iff_less_mult)
  have r: "0 \<le> n mod 10" "n mod 10 < 10" by simp_all
  from q have "16 * (n div 10) \<le> 16 * (m - 1)" by simp
  with q r show ?thesis unfolding dectobcd_arith by linarith
qed

lemma update_all_7:
  assumes "length xs = 7"
  shows "xs[3 := a3, 0 := a0, Suc 0 := a1, 2 := a2, 4 := a4, 5 := a5, 6 := a6] =
           [a0, a1, a2, a3, a4, a5, a6]"
proof -
  from assms obtain x0 x1 x2 x3 x4 x5 x6 where "xs = [x0, x1, x2, x3, x4, x5, x6]"
    by (auto simp add: eval_nat_numeral length_Suc_conv)
  then show ?thesis by simp
qed

lemma dectobcd_fits:
  "0 \<le> v \<Longrightarrow> v \<le> 159 \<Longrightarrow> 0 \<le> dectobcd v \<and> dectobcd v \<le> 255"
  using dectobcd_range [of v 16] by simp


lemma month_fits: "0 \<le> dectobcd mo AND 0xFF \<and> dectobcd mo AND 0xFF \<le> 255"
  by (simp add: and_255_mod)

text \<open>
  \<open>datetime(dt)\<close> on a full tuple whose seconds, minutes, hours, day and
  weekday lie in 0..159 and whose year is not one of -9..-1: every store fits a
  byte, the seven bytes are written in one block and the status register is
  rewritten.
\<close>

lemma datetime_set_full:
  fixes y mo d h mi sec wd :: int and s :: DS3231
  assumes ok: "buffers_ok s"
    and fits: "0 \<le> sec" "sec \<le> 159" "0 \<le> mi" "mi \<le> 159" "0 \<le> h" "h \<le> 159"
      "0 \<le> d" "d \<le> 159" "0 \<le> wd" "wd \<le> 159"
    and year: "\<not> (- 10 < y \<and> y < 0)"
  defines "bs \<equiv> [word_of_int (dectobcd sec), word_of_int (dectobcd mi),
                  word_of_int (dectobcd h), word_of_int (dectobcd wd),
                  word_of_int (dectobcd d), word_of_int (dectobcd mo AND 0xFF),
                  word_of_int (dectobcd (\<bar>y\<bar> mod 100))]"
  shows "datetime_set [y, mo, d, h, mi, sec, wd] s =
           (Inr True, snd (OSF_reset (s\<lparr>timebuf := bs,
               i2c := writeto_mem (i2c s) (addr s) DATETIME_REG bs\<rparr>)))"
proof -
  from ok have tb: "length (timebuf s) = 7" and b: "length (buf s) = 1"
    by (simp_all add: buffers_ok_def)
  have yy: "0 \<le> \<bar>y\<bar> mod 100" "\<bar>y\<bar> mod 100 \<le> 159"
    using pos_mod_bound [of 100 "\<bar>y\<bar>"] by simp_all
  note f = dectobcd_fits [OF fits(1,2)] dectobcd_fits [OF fits(3,4)] dectobcd_fits [OF fits(5,6)]
    dectobcd_fits [OF fits(7,8)] dectobcd_fits [OF fits(9,10)] dectobcd_fits [OF yy] month_fits
  have last: "and_then (OSF_reset t) (\<lambda>u s9. (Inr True, s9)) = (Inr True, snd (OSF_reset t))"
    if "length (buf t) = 1" for t
    using that by (simp add: OSF_reset_eq and_then_Inr)
  have yd: "py_int (last2 (py_str y)) = Inr (\<bar>y\<bar> mod 100)"
    using year by (auto simp add: year_digits)
  show ?thesis
    unfolding datetime_set_def bs_def
    by (simp add: item_def yd store_timebuf_fits f and_then_Inr last b
        update_all_7 [OF tb] del: list_update.simps)
qed

lemma datetime_get_fields:
  fixes s :: DS3231
  assumes "length (timebuf s) = 7"
  defines "m \<equiv> \<lambda>k. uint (mem (i2c s) (addr s) k)"
  shows "fst (datetime_get s) =
     [bcdtodec (m 6) + 2000, bcdtodec (m 5 AND 0x7F), bcdtodec (m 4), bcdtodec (m 3),
      (if m 2 AND 0x40 \<noteq> 0
       then (if m 2 AND 0x20 \<noteq> 0 then bcdtodec (m 2 AND 0x1F) + 12
             else bcdtodec (m 2 AND 0x1F))
       else bcdtodec (m 2 AND 0x3F)),
      bcdtodec (m 1), bcdtodec (m 0), 0]"
  unfolding datetime_get_def m_def
  by (simp add: assms(1) Let_def readfrom_mem_7 DATETIME_REG_def)

lemma datetime_get_console:
  "console (snd (datetime_get s)) =
     (if OSF s then console s @ [''WARNING: Oscillator stop flag set. Time may not be accurate.'']
      else console s)"
  by (simp add: datetime_get_def Let_def OSF_def)

lemma stored_bcd:
  assumes "0 \<le> n" and "n \<le> 99"
  shows "uint (word_of_int (dectobcd n) :: byte) = dectobcd n"
  using dectobcd_range [of n 10] assms by (simp add: uint_word_fits)

lemma year_2000s: "2000 \<le> y \<Longrightarrow> y \<le> 2099 \<Longrightarrow> \<bar>y\<bar> mod 100 = y - (2000::int)"
proof -
  assume y: "2000 \<le> y" "y \<le> 2099"
  have "y mod 100 = (y - 2000) mod 100"
    using mod_mult_self2 [of "y - 2000" 100 20] by simp
  with y show ?thesis by simp
qed

text \<open>
  C9. For every tuple and every prior status byte: a call \<open>datetime(dt)\<close> that
  completes has returned \<open>True\<close>; afterwards bit 7 of the status register is
  0, bits 0 to 6 are as they were, and \<open>OSF()\<close> is false. (A tuple without the
  five required fields raises \<open>IndexError\<close> and a field that does not fit a
  byte raises \<open>ValueError\<close>; \<open>datetime_set_full\<close> gives the tuples for which the
  call completes.)
\<close>

theorem datetime_set_clears_osf:
  assumes ok: "buffers_ok s" and completes: "fst (datetime (Some dt) s) = Inr r"
  shows "let st = mem (i2c s) (addr s) STATUS_REG;
             s' = snd (datetime (Some dt) s);
             st' = mem (i2c s') (addr s') STATUS_REG
         in r = Done True \<and> \<not> bit st' 7 \<and> (\<forall>n<7. bit st' n = bit st n) \<and>
            \<not> OSF s'"
proof -
  from ok have b: "length (buf s) = 1" and tb: "length (timebuf s) = 7"
    by (simp_all add: buffers_ok_def)
  obtain a s' where run: "datetime_set dt s = (a, s')" by (cases "datetime_set dt s")
  with completes obtain v where a: "a = Inr v" and r: "r = Done v"
    by (cases a) (simp_all add: datetime_def)
  from datetime_set_completes [OF run [unfolded a] b tb]
  have v: "v = True" and a': "addr s' = addr s"
    and st': "mem (i2c s') (addr s) STATUS_REG = mem (i2c s) (addr s) STATUS_REG AND 0x7F"
    by simp_all
  show ?thesis
    using byte_mask_7f [of "mem (i2c s) (addr s) STATUS_REG"]
    by (simp add: Let_def datetime_def run a r v OSF_bit st' a')
qed

theorem datetime_set_clears_osf_witness:
  "let s = init \<lparr>mem = \<lambda>a r. 0x8B, writes = []\<rparr> 0x68;
       dt = [2023, 6, 15, 10, 30, 45, 4];
       s' = snd (datetime (Some dt) s)
   in buffers_ok s \<and>
      fst (datetime (Some dt) s) = Inr (Done True) \<and>
      \<not> bit (mem (i2c s') (addr s') STATUS_REG) 7 \<and>
      bit (mem (i2c s') (addr s') STATUS_REG) 0 = bit (mem (i2c s) (addr s) STATUS_REG) 0"
proof -
  have ok: "buffers_ok (init \<lparr>mem = \<lambda>a r. 0x8B, writes = []\<rparr> 0x68)"
    by (simp add: buffers_ok_def init_def)
  have run: "fst (datetime (Some [2023, 6, 15, 10, 30, 45, 4])
      (init \<lparr>mem = \<lambda>a r. 0x8B, writes = []\<rparr> 0x68)) = Inr (Done True)"
    by (simp add: datetime_def datetime_set_full [OF ok])
  show ?thesis
    using datetime_set_clears_osf [OF ok run] ok run
    by (simp add: Let_def)
qed

text \<open>
  C1. Time round trip on the register-file bus: for every tuple with year
  2000-2099, month 1-12, day 1-31, hour 0-23, minute 0-59, second 0-59 and
  weekday 1-7, \<open>datetime(dt)\<close> returns \<open>True\<close> and leaves the oscillator-stop
  flag clear, and \<open>datetime()\<close> right after returns
  \<open>(year, month, day, weekday, hour, minute, second, 0)\<close> and prints no warning.
\<close>

theorem datetime_round_trip:
  assumes ok: "buffers_ok s"
    and y: "2000 \<le> y" "y \<le> 2099" and mo: "1 \<le> mo" "mo \<le> 12"
    and d: "1 \<le> d" "d \<le> 31" and h: "0 \<le> h" "h \<le> 23"
    and mi: "0 \<le> mi" "mi \<le> 59" and sec: "0 \<le> sec" "sec \<le> 59"
    and wd: "1 \<le> wd" "wd \<le> 7"
  shows "let s1 = snd (datetime (Some [y, mo, d, h, mi, sec, wd]) s)
         in fst (datetime (Some [y, mo, d, h, mi, sec, wd]) s) = Inr (Done True) \<and>
            \<not> OSF s1 \<and>
            fst (datetime None s1) = Inr (Fields [y, mo, d, wd, h, mi, sec, 0]) \<and>
            console (snd (datetime None s1)) = console s"
proof -
  define yy where "yy = y - 2000"
  have yy: "0 \<le> yy" "yy \<le> 99" "\<bar>y\<bar> mod 100 = yy"
    using y year_2000s [OF y] by (simp_all add: yy_def)
  have year: "\<not> (- 10 < y \<and> y < 0)" using y by simp
  define bs :: "byte list" where "bs = [word_of_int (dectobcd sec), word_of_int (dectobcd mi),
    word_of_int (dectobcd h), word_of_int (dectobcd wd), word_of_int (dectobcd d),
    word_of_int (dectobcd mo AND 0xFF), word_of_int (dectobcd yy)]"
  define t where "t = s\<lparr>timebuf := bs, i2c := writeto_mem (i2c s) (addr s) DATETIME_REG bs\<rparr>"
  define s1 where "s1 = snd (OSF_reset t)"
  have fits: "0 \<le> sec" "sec \<le> 159" "0 \<le> mi" "mi \<le> 159" "0 \<le> h" "h \<le> 159"
    "0 \<le> d" "d \<le> 159" "0 \<le> wd" "wd \<le> 159"
    using sec mi h d wd by simp_all
  have run: "datetime_set [y, mo, d, h, mi, sec, wd] s = (Inr True, s1)"
    unfolding s1_def t_def bs_def datetime_set_full [OF ok fits year] yy(3) ..
  from ok have b: "length (buf s) = 1" by (simp add: buffers_ok_def)
  have t: "length (buf t) = 1" "addr t = addr s" "timebuf t = bs" "console t = console s"
    using b by (simp_all add: t_def)
  have s1: "addr s1 = addr s" "length (timebuf s1) = 7" "console s1 = console s"
    using t OSF_reset_fields [OF t(1)] by (simp_all add: s1_def bs_def)
  have regs: "mem (i2c s1) (addr s) k = bs ! k" if "k < 7" for k
    using that t by (simp add: s1_def OSF_reset_mem STATUS_REG_def t_def mem_writeto_mem
        DATETIME_REG_def bs_def)
  have status: "\<not> bit (mem (i2c s1) (addr s) STATUS_REG) 7"
    using t byte_mask_7f by (simp add: s1_def OSF_reset_mem)
  then have osf: "\<not> OSF s1" by (simp add: OSF_bit s1)
  have m0: "uint (mem (i2c s1) (addr s) 0) = dectobcd sec"
    using sec by (simp add: regs bs_def stored_bcd)
  have m1: "uint (mem (i2c s1) (addr s) 1) = dectobcd mi"
    using mi by (simp add: regs bs_def stored_bcd)
  have m2: "uint (mem (i2c s1) (addr s) 2) = dectobcd h"
    using h by (simp add: regs bs_def stored_bcd)
  have m3: "uint (mem (i2c s1) (addr s) 3) = dectobcd wd"
    using wd by (simp add: regs bs_def stored_bcd)
  have m4: "uint (mem (i2c s1) (addr s) 4) = dectobcd d"
    using d by (simp add: regs bs_def stored_bcd)
  have mo_small: "0 \<le> dectobcd mo" "dectobcd mo < 32"
    using dectobcd_range [of mo 2] mo by simp_all
  have m5: "uint (mem (i2c s1) (addr s) 5) = dectobcd mo"
    using mo_small by (simp add: regs bs_def and_255_mod uint_word_fits)
  have m6: "uint (mem (i2c s1) (addr s) 6) = dectobcd yy"
    using yy by (simp add: regs bs_def stored_bcd)
  have h_small: "0 \<le> dectobcd h" "dectobcd h < 64"
    using dectobcd_range [of h 4] h by simp_all
  have hour: "dectobcd h AND 0x40 = 0" "dectobcd h AND 0x3F = dectobcd h"
    using h_small by (simp_all add: and_64_bit small_no_bit6 and_63_mod)
  have month: "dectobcd mo AND 0x7F = dectobcd mo"
    using mo_small by (simp add: and_127_mod)
  have get: "fst (datetime_get s1) = [y, mo, d, wd, h, mi, sec, 0]"
    unfolding datetime_get_fields [OF s1(2)] s1(1) m0 m1 m2 m3 m4 m5 m6 hour month
    using y mo d h mi sec wd yy by (simp add: bcd_inverse yy_def)
  have con: "console (snd (datetime_get s1)) = console s"
    using osf by (simp add: datetime_get_console s1)
  show ?thesis
    using osf get con
    by (simp add: Let_def datetime_def run split_beta)
qed

theorem datetime_round_trip_witness:
  "let s = init \<lparr>mem = \<lambda>a r. 0x80, writes = []\<rparr> 0x68;
       s1 = snd (datetime (Some [2023, 6, 15, 10, 30, 45, 4]) s)
   in buffers_ok s \<and>
      fst (datetime (Some [2023, 6, 15, 10, 30, 45, 4]) s) = Inr (Done True) \<and>
      fst (datetime None s1) = Inr (Fields [2023, 6, 15, 4, 10, 30, 45, 0])"
proof -
  have ok: "buffers_ok (init \<lparr>mem = \<lambda>a r. 0x80, writes = []\<rparr> 0x68)"
    by (simp add: buffers_ok_def init_def)
  show ?thesis
    using datetime_round_trip [OF ok, of 2023 6 15 10 30 45 4] ok
    by (simp add: Let_def)
qed

section \<open>The hour on read\<close>

lemma datetime_None_eq: "fst (datetime None s) = Inr (Fields (fst (datetime_get s)))"
  by (simp add: datetime_def split_beta)

lemma uint_and_64: "(uint (b::byte) AND 0x40 = 0) = (\<not> bit b 6)"
  by (simp add: and_64_bit bit_simps)

lemma uint_and_32: "(uint (b::byte) AND 0x20 = 0) = (\<not> bit b 5)"
  by (simp add: and_32_bit bit_simps)

lemma datetime_get_init:
  "fst (datetime_get (init bus a)) =
     [bcdtodec (uint (mem bus a 6)) + 2000, bcdtodec (uint (mem bus a 5) AND 0x7F),
      bcdtodec (uint (mem bus a 4)), bcdtodec (uint (mem bus a 3)),
      (if uint (mem bus a 2) AND 0x40 \<noteq> 0
       then (if uint (mem bus a 2) AND 0x20 \<noteq> 0
             then bcdtodec (uint (mem bus a 2) AND 0x1F) + 12
             else bcdtodec (uint (mem bus a 2) AND 0x1F))
       else bcdtodec (uint (mem bus a 2) AND 0x3F)),
      bcdtodec (uint (mem bus a 1)), bcdtodec (uint (mem bus a 0)), 0]"
proof -
  have tb: "length (timebuf (init bus a)) = 7" by (simp add: init_def)
  show ?thesis unfolding datetime_get_fields [OF tb] by (simp add: init_def)
qed

text \<open>
  C5 (as amended). When the hour register holds a valid encoding, either
  24-hour mode (bit 6 clear) with bits 0 to 5 the BCD of an hour 0-23, or
  12-hour mode (bit 6 set) with bits 0 to 4 the BCD of an hour 1-11 and bit 5
  the PM flag, \<open>datetime()\<close> returns that hour, plus 12 when the PM flag is
  set, and the hour returned lies in 0-23.
\<close>

theorem datetime_hour_valid_encoding:
  assumes ok: "buffers_ok s"
    and b: "b = mem (i2c s) (addr s) 2"
    and enc: "(\<not> bit b 6 \<and> uint b AND 0x3F = dectobcd h \<and> 0 \<le> h \<and> h \<le> 23) \<or>
              (bit b 6 \<and> uint b AND 0x1F = dectobcd h \<and> 1 \<le> h \<and> h \<le> 11)"
  shows "let t = fst (datetime_get s); hour = t ! 4
         in fst (datetime None s) = Inr (Fields t) \<and>
            hour = (if bit b 6 \<and> bit b 5 then h + 12 else h) \<and>
            0 \<le> hour \<and> hour \<le> 23"
proof -
  from ok have tb: "length (timebuf s) = 7" by (simp add: buffers_ok_def)
  have hour: "fst (datetime_get s) ! 4 =
      (if uint b AND 0x40 \<noteq> 0
       then (if uint b AND 0x20 \<noteq> 0 then bcdtodec (uint b AND 0x1F) + 12
             else bcdtodec (uint b AND 0x1F))
       else bcdtodec (uint b AND 0x3F))"
    unfolding datetime_get_fields [OF tb] b by simp
  from enc show ?thesis
  proof
    assume "\<not> bit b 6 \<and> uint b AND 0x3F = dectobcd h \<and> 0 \<le> h \<and> h \<le> 23"
    then show ?thesis
      unfolding Let_def hour datetime_None_eq
      by (simp add: uint_and_64 bcd_inverse)
  next
    assume "bit b 6 \<and> uint b AND 0x1F = dectobcd h \<and> 1 \<le> h \<and> h \<le> 11"
    then show ?thesis
      unfolding Let_def hour datetime_None_eq
      by (simp add: uint_and_64 uint_and_32 bcd_inverse)
  qed
qed

theorem datetime_hour_valid_encoding_witness:
  "let s = init \<lparr>mem = \<lambda>a r. if r = 2 then 0x63 else 0, writes = []\<rparr> 0x68;
       b = mem (i2c s) (addr s) 2
   in buffers_ok s \<and> bit b 6 \<and> bit b 5 \<and> uint b AND 0x1F = dectobcd 3 \<and>
      fst (datetime None s) = Inr (Fields [2000, 0, 0, 0, 15, 0, 0, 0]) \<and>
      fst (datetime_get s) ! 4 = 15"
proof -
  have ok: "buffers_ok (init \<lparr>mem = \<lambda>a r. if r = 2 then 0x63 else 0, writes = []\<rparr> 0x68)"
    by (simp add: buffers_ok_def init_def)
  have enc: "bit (0x63 :: byte) 6 \<and> bit (0x63 :: byte) 5 \<and> uint (0x63 :: byte) AND 0x1F = dectobcd 3"
    by (simp add: dectobcd_def)
  have regs: "mem (i2c (init bus a)) (addr (init bus a)) k = mem bus a k" for bus a k
    by (simp add: init_def)
  show ?thesis
    using datetime_hour_valid_encoding [OF ok, of "0x63" 3] enc ok
    by (simp add: Let_def datetime_None_eq datetime_get_init regs bcdtodec_def)
qed

text \<open>
  C5 as stated fails: with the hour register \<open>0x3F\<close> (24-hour mode, low nibble
  15) the hour returned is 45, and with \<open>0x72\<close> (12-hour mode, PM, hour 12) it
  is 24.
\<close>

theorem datetime_hour_counterexample:
  "let s = init \<lparr>mem = \<lambda>a r. if r = 2 then 0x3F else 0, writes = []\<rparr> 0x68;
       t = init \<lparr>mem = \<lambda>a r. if r = 2 then 0x72 else 0, writes = []\<rparr> 0x68
   in fst (datetime None s) = Inr (Fields [2000, 0, 0, 0, 45, 0, 0, 0]) \<and>
      \<not> (0 \<le> fst (datetime_get s) ! 4 \<and> fst (datetime_get s) ! 4 \<le> 23) \<and>
      fst (datetime None t) = Inr (Fields [2000, 0, 0, 0, 24, 0, 0, 0]) \<and>
      \<not> (0 \<le> fst (datetime_get t) ! 4 \<and> fst (datetime_get t) ! 4 \<le> 23)"
  by (simp add: Let_def datetime_None_eq datetime_get_init bcdtodec_def)

text \<open>
  The twelve o'clock encodings of the 12-hour mode: 12 PM (\<open>0x72\<close>) is returned as
  24 and 12 AM (\<open>0x52\<close>) as 12.
\<close>

lemma datetime_hour_twelve:
  "fst (datetime_get (init \<lparr>mem = \<lambda>a r. if r = 2 then 0x72 else 0, writes = []\<rparr> 0x68)) ! 4 = 24 \<and>
   fst (datetime_get (init \<lparr>mem = \<lambda>a r. if r = 2 then 0x52 else 0, writes = []\<rparr> 0x68)) ! 4 = 12"
  by (simp add: datetime_get_init bcdtodec_def)

section \<open>Alarm 1 and the byte store\<close>

lemma update_all_4:
  assumes "length xs = 4"
  shows "xs[0 := a0, Suc 0 := a1, 2 := a2, 3 := a3] = [a0, a1, a2, a3]"
proof -
  from assms obtain x0 x1 x2 x3 where "xs = [x0, x1, x2, x3]"
    by (auto simp add: eval_nat_numeral length_Suc_conv)
  then show ?thesis by simp
qed

lemma store_al1_buf_fits:
  "0 \<le> v \<and> v \<le> 255 \<Longrightarrow>
     store_al1_buf i v s = (Inr (), s\<lparr>al1_buf := (al1_buf s)[i := word_of_int v]\<rparr>)"
  by (simp add: store_al1_buf_def byte_of_fits)

lemma alarm_int_1_run:
  assumes "length (buf s) = 1"
  obtains c new where
    "alarm_int enable 1 s =
       (Inr c, s\<lparr>buf := [mem (i2c s) (addr s) CONTROL_REG],
                 i2c := writeto_mem (i2c s) (addr s) CONTROL_REG [new]\<rparr>)"
  using assms by (simp add: alarm_int_1_eq Let_def)

lemma check_alarm_run:
  assumes "length (buf s) = 1"
  shows "\<exists>p ws s'. check_alarm k s = (Inr p, s') \<and>
           writes (i2c s') = writes (i2c s) @ ws \<and> al1_buf s' = al1_buf s"
proof (cases "uint (mem (i2c s) (addr s) STATUS_REG) AND k = 0")
  case True
  with assms have "check_alarm k s = (Inr False, s\<lparr>buf := [mem (i2c s) (addr s) STATUS_REG]\<rparr>)"
    by (simp add: check_alarm_eq)
  then show ?thesis by auto
next
  case False
  with assms have "check_alarm k s =
      (Inr True, s\<lparr>buf := [mem (i2c s) (addr s) STATUS_REG],
               i2c := writeto_mem (i2c s) (addr s) STATUS_REG
                        [mem (i2c s) (addr s) STATUS_REG AND word_of_int (NOT k)]\<rparr>)"
    by (simp add: check_alarm_eq)
  then show ?thesis by (auto simp add: writes_writeto_mem)
qed

text \<open>The mask bits and the weekday flag lie inside a byte.\<close>

lemma mask_bit_range:
  assumes "0 \<le> k" and "k * 2 ^ n \<le> 255"
  shows "0 \<le> push_bit n ((m::int) AND k) \<and> push_bit n (m AND k) \<le> 255"
proof -
  have lo: "0 \<le> m AND k" using assms(1) by simp
  have "m AND k \<le> k" using assms(1) by (rule AND_upper2)
  then have "(m AND k) * 2 ^ n \<le> k * 2 ^ n" by (rule mult_right_mono) simp
  from this assms(2) have hi: "(m AND k) * 2 ^ n \<le> 255" by (rule order_trans)
  from lo have "0 \<le> (m AND k) * 2 ^ n" by (rule mult_nonneg_nonneg) simp
  with hi show ?thesis unfolding push_bit_eq_mult by (rule conjI [rotated])
qed

lemma dydt_range: "0 \<le> (if w then push_bit 6 1 else 0 :: int) \<and>
    (if w then push_bit 6 1 else 0 :: int) \<le> 255"
  by simp

lemma store_al1_buf_completes:
  "store_al1_buf i v s = (Inr u, s1) \<Longrightarrow> 0 \<le> v \<and> v \<le> 255"
  by (auto simp add: store_al1_buf_def dest: byte_of_completes split: sum.splits)

text \<open>
  \<open>alarm1\<close> with a time tuple, where each of the four values stored fits a byte:
  the four bytes are written in one block to \<open>ALARM1_REG\<close>, before the control
  and status registers are touched, and returned.
\<close>

lemma alarm1_run:
  fixes time :: "int list" and s :: DS3231 and match :: int and weekday :: bool
  defines "v0 \<equiv> dectobcd (time ! 0) OR push_bit 7 (match AND 0x01)"
  defines "v1 \<equiv> (if length time > 1 then dectobcd (time ! 1) OR push_bit 6 (match AND 0x02)
                  else push_bit 6 (match AND 0x02))"
  defines "v2 \<equiv> (if length time > 2 then dectobcd (time ! 2) OR push_bit 5 (match AND 0x04)
                  else push_bit 5 (match AND 0x04))"
  defines "v3 \<equiv> (if length time > 3
                  then dectobcd (time ! 3) OR push_bit 4 (match AND 0x08) OR
                       (if weekday then push_bit 6 1 else 0)
                  else push_bit 4 (match AND 0x08) OR (if weekday then push_bit 6 1 else 0))"
  defines "bytes \<equiv> [word_of_int v0, word_of_int v1, word_of_int v2, word_of_int v3 :: byte]"
  assumes ok: "buffers_ok s" and ne: "time \<noteq> []"
    and r0: "0 \<le> v0 \<and> v0 \<le> 255" and r1: "0 \<le> v1 \<and> v1 \<le> 255"
    and r2: "0 \<le> v2 \<and> v2 \<le> 255" and r3: "0 \<le> v3 \<and> v3 \<le> 255"
  shows "fst (alarm1 (Some (Tuple time)) match int_en weekday s) = Inr bytes \<and>
         (\<exists>rest. writes (i2c (snd (alarm1 (Some (Tuple time)) match int_en weekday s))) =
                  writes (i2c s) @ (addr s, ALARM1_REG, bytes) # rest)"
proof -
  from ok have b: "length (buf s) = 1" and a: "length (al1_buf s) = 4"
    by (simp_all add: buffers_ok_def)
  define s5 where "s5 = s\<lparr>al1_buf := bytes,
    i2c := writeto_mem (i2c s) (addr s) ALARM1_REG bytes\<rparr>"
  from ne have it: "item time 0 = Inr (time ! 0)" by (simp add: item_def)
  have stores: "alarm1 (Some (Tuple time)) match int_en weekday s =
      and_then (alarm_int int_en 1 s5) (\<lambda>c s6.
      and_then (check_alarm 1 s6) (\<lambda>p s7. (Inr (al1_buf s7), s7)))"
    unfolding alarm1_def option.case time_arg.case Let_def it and_then_Inr
      v0_def [symmetric] v1_def [symmetric] v2_def [symmetric] v3_def [symmetric]
    by (simp add: store_al1_buf_fits r0 r1 r2 r3 and_then_Inr s5_def bytes_def
        update_all_4 [OF a] del: list_update.simps)
  have s5: "length (buf s5) = 1" "al1_buf s5 = bytes" "addr s5 = addr s"
    "writes (i2c s5) = writes (i2c s) @ [(addr s, ALARM1_REG, bytes)]"
    using b by (simp_all add: s5_def writes_writeto_mem)
  from alarm_int_1_run [OF s5(1), of int_en] obtain c new where
    ai: "alarm_int int_en 1 s5 =
       (Inr c, s5\<lparr>buf := [mem (i2c s5) (addr s5) CONTROL_REG],
                  i2c := writeto_mem (i2c s5) (addr s5) CONTROL_REG [new]\<rparr>)"
    by blast
  define s6 where "s6 = s5\<lparr>buf := [mem (i2c s5) (addr s5) CONTROL_REG],
                  i2c := writeto_mem (i2c s5) (addr s5) CONTROL_REG [new]\<rparr>"
  have s6: "length (buf s6) = 1" "al1_buf s6 = bytes"
    "writes (i2c s6) = writes (i2c s5) @ [(addr s5, CONTROL_REG, [new])]"
    using s5 by (simp_all add: s6_def writes_writeto_mem)
  from check_alarm_run [OF s6(1), of 1] obtain p ws s7 where
    ca: "check_alarm 1 s6 = (Inr p, s7)"
    and s7: "writes (i2c s7) = writes (i2c s6) @ ws" "al1_buf s7 = al1_buf s6"
    by blast
  have run: "alarm1 (Some (Tuple time)) match int_en weekday s = (Inr bytes, s7)"
    unfolding stores ai s6_def [symmetric] and_then_Inr ca by (simp add: s7 s6)
  show ?thesis
    unfolding run by (simp add: s7 s6 s5)
qed

text \<open>With every field in 0..159 the four values stored fit a byte.\<close>

lemma alarm1_fits:
  fixes time :: "int list" and match :: int and weekday :: bool
  assumes fits: "\<forall>v\<in>set (take 4 time). 0 \<le> v \<and> v \<le> 159" and ne: "time \<noteq> []"
  defines "v0 \<equiv> dectobcd (time ! 0) OR push_bit 7 (match AND 0x01)"
  defines "v1 \<equiv> (if length time > 1 then dectobcd (time ! 1) OR push_bit 6 (match AND 0x02)
                  else push_bit 6 (match AND 0x02))"
  defines "v2 \<equiv> (if length time > 2 then dectobcd (time ! 2) OR push_bit 5 (match AND 0x04)
                  else push_bit 5 (match AND 0x04))"
  defines "v3 \<equiv> (if length time > 3
                  then dectobcd (time ! 3) OR push_bit 4 (match AND 0x08) OR
                       (if weekday then push_bit 6 1 else 0)
                  else push_bit 4 (match AND 0x08) OR (if weekday then push_bit 6 1 else 0))"
  shows "(0 \<le> v0 \<and> v0 \<le> 255) \<and> (0 \<le> v1 \<and> v1 \<le> 255) \<and>
         (0 \<le> v2 \<and> v2 \<le> 255) \<and> (0 \<le> v3 \<and> v3 \<le> 255)"
proof -
  have d: "0 \<le> dectobcd (time ! i) \<and> dectobcd (time ! i) \<le> 255"
    if "i < 4" "i < length time" for i
  proof -
    from that have "time ! i \<in> set (take 4 time)"
      using nth_mem [of i "take 4 time"] by simp
    with fits show ?thesis by (simp add: dectobcd_fits)
  qed
  note m1 = mask_bit_range [of 1 7 match, simplified]
  note m2 = mask_bit_range [of 2 6 match, simplified]
  note m3 = mask_bit_range [of 4 5 match, simplified]
  note m4 = mask_bit_range [of 8 4 match, simplified]
  have m4w: "0 \<le> push_bit 4 (match AND 8) OR (if weekday then push_bit 6 1 else 0) \<and>
      push_bit 4 (match AND 8) OR (if weekday then push_bit 6 1 else 0) \<le> 255"
    using m4 dydt_range [of weekday] by (intro or_byte_range) simp_all
  from ne have r0: "0 \<le> v0 \<and> v0 \<le> 255"
    unfolding v0_def using d [of 0] m1 by (intro or_byte_range) simp_all
  have r1: "0 \<le> v1 \<and> v1 \<le> 255"
  proof (cases "1 < length time")
    case True
    then show ?thesis unfolding v1_def using d [of 1] m2
      by (simp only: if_True) (intro or_byte_range, simp_all)
  next
    case False
    then show ?thesis unfolding v1_def using m2 by simp
  qed
  have r2: "0 \<le> v2 \<and> v2 \<le> 255"
  proof (cases "2 < length time")
    case True
    then show ?thesis unfolding v2_def using d [of 2] m3
      by (simp only: if_True) (intro or_byte_range, simp_all)
  next
    case False
    then show ?thesis unfolding v2_def using m3 by simp
  qed
  have r3: "0 \<le> v3 \<and> v3 \<le> 255"
  proof (cases "3 < length time")
    case True
    have "0 \<le> dectobcd (time ! 3) OR
        (push_bit 4 (match AND 8) OR (if weekday then push_bit 6 1 else 0)) \<and>
      dectobcd (time ! 3) OR
        (push_bit 4 (match AND 8) OR (if weekday then push_bit 6 1 else 0)) \<le> 255"
      using d [of 3] True m4w by (intro or_byte_range) simp_all
    with True show ?thesis unfolding v3_def by (simp only: if_True or.assoc)
  next
    case False
    with m4w show ?thesis unfolding v3_def by (simp only: if_False)
  qed
  from r0 r1 r2 r3 show ?thesis by blast
qed

lemma alarm1_eq:
  fixes time :: "int list" and s :: DS3231 and match :: int and weekday :: bool
  assumes ok: "buffers_ok s" and ne: "time \<noteq> []"
    and fits: "\<forall>v\<in>set (take 4 time). 0 \<le> v \<and> v \<le> 159"
  defines "bytes \<equiv>
     [word_of_int (dectobcd (time ! 0) OR push_bit 7 (match AND 0x01)),
      word_of_int (if length time > 1 then dectobcd (time ! 1) OR push_bit 6 (match AND 0x02)
               else push_bit 6 (match AND 0x02)),
      word_of_int (if length time > 2 then dectobcd (time ! 2) OR push_bit 5 (match AND 0x04)
               else push_bit 5 (match AND 0x04)),
      word_of_int (if length time > 3
               then dectobcd (time ! 3) OR push_bit 4 (match AND 0x08) OR
                    (if weekday then push_bit 6 1 else 0)
               else push_bit 4 (match AND 0x08) OR (if weekday then push_bit 6 1 else 0)) :: byte]"
  shows "fst (alarm1 (Some (Tuple time)) match int_en weekday s) = Inr bytes \<and>
         (\<exists>rest. writes (i2c (snd (alarm1 (Some (Tuple time)) match int_en weekday s))) =
                  writes (i2c s) @ (addr s, ALARM1_REG, bytes) # rest)"
  unfolding bytes_def
  using alarm1_fits [OF fits ne, of match weekday]
  by (intro alarm1_run [OF ok ne]) blast+

text \<open>
  A call of \<open>alarm1\<close> with a time tuple that completes was given a non-empty
  tuple, and each of the four values it stored fits a byte.
\<close>

lemma alarm1_completes:
  fixes time :: "int list" and s :: DS3231 and match :: int and weekday :: bool
  assumes run: "alarm1 (Some (Tuple time)) match int_en weekday s = (Inr bs, s')"
  defines "v0 \<equiv> dectobcd (time ! 0) OR push_bit 7 (match AND 0x01)"
  defines "v1 \<equiv> (if length time > 1 then dectobcd (time ! 1) OR push_bit 6 (match AND 0x02)
                  else push_bit 6 (match AND 0x02))"
  defines "v2 \<equiv> (if length time > 2 then dectobcd (time ! 2) OR push_bit 5 (match AND 0x04)
                  else push_bit 5 (match AND 0x04))"
  defines "v3 \<equiv> (if length time > 3
                  then dectobcd (time ! 3) OR push_bit 4 (match AND 0x08) OR
                       (if weekday then push_bit 6 1 else 0)
                  else push_bit 4 (match AND 0x08) OR (if weekday then push_bit 6 1 else 0))"
  shows "time \<noteq> [] \<and> (0 \<le> v0 \<and> v0 \<le> 255) \<and> (0 \<le> v1 \<and> v1 \<le> 255) \<and>
         (0 \<le> v2 \<and> v2 \<le> 255) \<and> (0 \<le> v3 \<and> v3 \<le> 255)"
proof -
  from run obtain t0 s0 u1 s1 u2 s2 u3 s3 u4 s4 where
    it: "(item time 0, s) = (Inr t0, s0)"
    and st0: "store_al1_buf 0 (dectobcd t0 OR push_bit 7 (match AND 0x01)) s0 = (Inr u1, s1)"
    and st1: "store_al1_buf 1 v1 s1 = (Inr u2, s2)"
    and st2: "store_al1_buf 2 v2 s2 = (Inr u3, s3)"
    and st3: "store_al1_buf 3 v3 s3 = (Inr u4, s4)"
    unfolding alarm1_def option.case time_arg.case Let_def
      v1_def [symmetric] v2_def [symmetric] v3_def [symmetric]
    by (elim and_then_completes) blast
  from it have ne: "time \<noteq> []" and t0: "t0 = time ! 0"
    by (auto simp add: item_def split: if_splits)
  from st0 have "0 \<le> v0 \<and> v0 \<le> 255"
    unfolding v0_def t0 by (rule store_al1_buf_completes)
  with ne st1 st2 st3 show ?thesis
    by (blast dest: store_al1_buf_completes)
qed

lemma byte_bit7: "bit (word_of_int k :: byte) 7 = bit k 7"
  by (simp add: bit_simps)

lemma dectobcd_no_bit7: "0 \<le> v \<Longrightarrow> v < 80 \<Longrightarrow> \<not> bit (dectobcd v) 7"
  using dectobcd_range [of v 8] by (simp add: bit_iff_odd)

lemma nth_in_take4: "i < 4 \<Longrightarrow> i < length xs \<Longrightarrow> xs ! i \<in> set (take 4 xs)"
  using nth_mem [of i "take 4 xs"] by simp

lemma alarm1_dhms_bits:
  assumes ok: "buffers_ok s" and ne: "time \<noteq> []"
    and rng: "\<forall>v\<in>set (take 4 time). 0 \<le> v \<and> v < 80"
  shows "\<exists>bs. fst (alarm1 (Some (Tuple time)) AL1_MATCH_DHMS int_en weekday s) = Inr bs \<and>
              (\<exists>rest. writes (i2c (snd (alarm1 (Some (Tuple time)) AL1_MATCH_DHMS
                               int_en weekday s))) =
                       writes (i2c s) @ (addr s, ALARM1_REG, bs) # rest) \<and>
              length bs = 4 \<and> (\<forall>b\<in>set bs. \<not> bit b 7)"
proof -
  have r: "\<not> bit (dectobcd (time ! i)) 7" if "i < 4" "i < length time" for i
    using rng nth_in_take4 [OF that] by (simp add: dectobcd_no_bit7)
  from ne have r0: "\<not> bit (dectobcd (time ! 0)) 7" using r [of 0] by simp
  have r1: "1 < length time \<Longrightarrow> \<not> bit (dectobcd (time ! 1)) 7" using r [of 1] by simp
  have r2: "2 < length time \<Longrightarrow> \<not> bit (dectobcd (time ! 2)) 7" using r [of 2] by simp
  have r3: "3 < length time \<Longrightarrow> \<not> bit (dectobcd (time ! 3)) 7" using r [of 3] by simp
  from rng have fits: "\<forall>v\<in>set (take 4 time). 0 \<le> v \<and> v \<le> 159" by auto
  define bs :: "byte list" where "bs =
     [word_of_int (dectobcd (time ! 0)),
      word_of_int (if length time > 1 then dectobcd (time ! 1) else 0),
      word_of_int (if length time > 2 then dectobcd (time ! 2) else 0),
      word_of_int (if length time > 3
               then dectobcd (time ! 3) OR (if weekday then push_bit 6 1 else 0)
               else (if weekday then push_bit 6 1 else 0))]"
  have run: "fst (alarm1 (Some (Tuple time)) AL1_MATCH_DHMS int_en weekday s) = Inr bs \<and>
      (\<exists>rest. writes (i2c (snd (alarm1 (Some (Tuple time)) AL1_MATCH_DHMS int_en weekday s))) =
               writes (i2c s) @ (addr s, ALARM1_REG, bs) # rest)"
    using alarm1_eq [OF ok ne fits, of AL1_MATCH_DHMS int_en weekday]
    by (simp add: AL1_MATCH_DHMS_def bs_def cong: if_cong)
  have bits: "length bs = 4 \<and> (\<forall>b\<in>set bs. \<not> bit b 7)"
    using r0 r1 r2 r3 by (simp add: bs_def byte_bit7 bit_simps)
  from run bits show ?thesis by blast
qed

lemma alarm1_every_s_bits:
  assumes ok: "buffers_ok s"
    and run: "fst (alarm1 (Some (Tuple time)) AL1_EVERY_S int_en weekday s) = Inr bs"
  shows "(\<exists>rest. writes (i2c (snd (alarm1 (Some (Tuple time)) AL1_EVERY_S
                               int_en weekday s))) =
                  writes (i2c s) @ (addr s, ALARM1_REG, bs) # rest) \<and>
         length bs = 4 \<and> (\<forall>b\<in>set bs. bit b 7)"
proof -
  from run have "alarm1 (Some (Tuple time)) AL1_EVERY_S int_en weekday s =
      (Inr bs, snd (alarm1 (Some (Tuple time)) AL1_EVERY_S int_en weekday s))"
    by (simp add: prod_eq_iff)
  from alarm1_completes [OF this] have ne: "time \<noteq> []"
    and r: "0 \<le> dectobcd (time ! 0) OR push_bit 7 (AL1_EVERY_S AND 0x01) \<and>
        dectobcd (time ! 0) OR push_bit 7 (AL1_EVERY_S AND 0x01) \<le> 255"
      "0 \<le> (if length time > 1 then dectobcd (time ! 1) OR push_bit 6 (AL1_EVERY_S AND 0x02)
              else push_bit 6 (AL1_EVERY_S AND 0x02)) \<and>
        (if length time > 1 then dectobcd (time ! 1) OR push_bit 6 (AL1_EVERY_S AND 0x02)
              else push_bit 6 (AL1_EVERY_S AND 0x02)) \<le> 255"
      "0 \<le> (if length time > 2 then dectobcd (time ! 2) OR push_bit 5 (AL1_EVERY_S AND 0x04)
              else push_bit 5 (AL1_EVERY_S AND 0x04)) \<and>
        (if length time > 2 then dectobcd (time ! 2) OR push_bit 5 (AL1_EVERY_S AND 0x04)
              else push_bit 5 (AL1_EVERY_S AND 0x04)) \<le> 255"
      "0 \<le> (if length time > 3
              then dectobcd (time ! 3) OR push_bit 4 (AL1_EVERY_S AND 0x08) OR
                   (if weekday then push_bit 6 1 else 0)
              else push_bit 4 (AL1_EVERY_S AND 0x08) OR (if weekday then push_bit 6 1 else 0)) \<and>
        (if length time > 3
              then dectobcd (time ! 3) OR push_bit 4 (AL1_EVERY_S AND 0x08) OR
                   (if weekday then push_bit 6 1 else 0)
              else push_bit 4 (AL1_EVERY_S AND 0x08) OR (if weekday then push_bit 6 1 else 0))
          \<le> 255"
    by blast+
  define cs :: "byte list" where "cs =
     [word_of_int (dectobcd (time ! 0) OR 128),
      word_of_int (if length time > 1 then dectobcd (time ! 1) OR 128 else 128),
      word_of_int (if length time > 2 then dectobcd (time ! 2) OR 128 else 128),
      word_of_int (if length time > 3
               then dectobcd (time ! 3) OR 128 OR (if weekday then push_bit 6 1 else 0)
               else 128 OR (if weekday then push_bit 6 1 else 0))]"
  have closed: "fst (alarm1 (Some (Tuple time)) AL1_EVERY_S int_en weekday s) = Inr cs \<and>
      (\<exists>rest. writes (i2c (snd (alarm1 (Some (Tuple time)) AL1_EVERY_S int_en weekday s))) =
               writes (i2c s) @ (addr s, ALARM1_REG, cs) # rest)"
    using alarm1_run [OF ok ne r, of int_en]
    by (simp add: AL1_EVERY_S_def cs_def cong: if_cong)
  with run have eq: "bs = cs" by simp
  have bits: "length cs = 4 \<and> (\<forall>b\<in>set cs. bit b 7)"
    by (simp add: cs_def byte_bit7 bit_simps)
  from closed bits show ?thesis unfolding eq by blast
qed

lemma alarm1_every_s_completes:
  assumes ok: "buffers_ok s" and ne: "time \<noteq> []"
    and fits: "\<forall>v\<in>set (take 4 time). 0 \<le> v \<and> v \<le> 159"
  shows "\<exists>bs. fst (alarm1 (Some (Tuple time)) AL1_EVERY_S int_en weekday s) = Inr bs"
  using alarm1_eq [OF ok ne fits, of AL1_EVERY_S int_en weekday] by blast

lemma alarm1_match_s_30:
  assumes ok: "buffers_ok s"
  shows "fst (alarm1 (Some (Tuple [30])) AL1_MATCH_S True False s) = Inr [0x30, 0x80, 0x80, 0x80] \<and>
         (\<exists>rest. writes (i2c (snd (alarm1 (Some (Tuple [30])) AL1_MATCH_S True False s))) =
                  writes (i2c s) @ (addr s, ALARM1_REG, [0x30, 0x80, 0x80, 0x80]) # rest)"
  using alarm1_eq [OF ok, of "[30]" AL1_MATCH_S True False]
  by (simp add: AL1_MATCH_S_def dectobcd_def)

text \<open>
  C7, amended. Alarm 1 mask construction. In mode \<open>AL1_MATCH_DHMS\<close>, for every
  non-empty time tuple whose fields lie in 0-79 (which covers seconds and
  minutes 0-59, hours 0-23 and days 1-31), the call writes four bytes, each with
  bit 7 equal to 0. In mode \<open>AL1_EVERY_S\<close>, the call completes for every
  non-empty tuple whose fields lie in 0-159, and whenever it completes, each of
  the four bytes it has written has bit 7 equal to 1.
  \<open>alarm1(time=(30,), match=AL1_MATCH_S)\<close> writes and returns
  \<open>0x30, 0x80, 0x80, 0x80\<close>: the first byte decodes to second 30 with mask bit 0,
  the other three have mask bit 1.
\<close>

theorem alarm1_mask_construction:
  assumes ok: "buffers_ok s"
  shows "(time \<noteq> [] \<and> (\<forall>v\<in>set (take 4 time). 0 \<le> v \<and> v < 80) \<longrightarrow>
           (\<exists>bs. fst (alarm1 (Some (Tuple time)) AL1_MATCH_DHMS int_en weekday s) = Inr bs \<and>
              (\<exists>rest. writes (i2c (snd (alarm1 (Some (Tuple time)) AL1_MATCH_DHMS
                               int_en weekday s))) =
                       writes (i2c s) @ (addr s, ALARM1_REG, bs) # rest) \<and>
              length bs = 4 \<and> (\<forall>b\<in>set bs. \<not> bit b 7))) \<and>
         (time \<noteq> [] \<and> (\<forall>v\<in>set (take 4 time). 0 \<le> v \<and> v \<le> 159) \<longrightarrow>
           (\<exists>bs. fst (alarm1 (Some (Tuple time)) AL1_EVERY_S int_en weekday s) = Inr bs)) \<and>
         (\<forall>bs. fst (alarm1 (Some (Tuple time)) AL1_EVERY_S int_en weekday s) = Inr bs \<longrightarrow>
              (\<exists>rest. writes (i2c (snd (alarm1 (Some (Tuple time)) AL1_EVERY_S
                               int_en weekday s))) =
                       writes (i2c s) @ (addr s, ALARM1_REG, bs) # rest) \<and>
              length bs = 4 \<and> (\<forall>b\<in>set bs. bit b 7)) \<and>
         fst (alarm1 (Some (Tuple [30])) AL1_MATCH_S True False s) =
           Inr [0x30, 0x80, 0x80, 0x80] \<and>
         (\<exists>rest. writes (i2c (snd (alarm1 (Some (Tuple [30])) AL1_MATCH_S True False s))) =
                  writes (i2c s) @ (addr s, ALARM1_REG, [0x30, 0x80, 0x80, 0x80]) # rest) \<and>
         bcdtodec (uint (0x30 :: byte) AND 0x7F) = 30 \<and> \<not> bit (0x30 :: byte) 7 \<and>
         bit (0x80 :: byte) 7"
proof -
  have dec: "bcdtodec (uint (0x30 :: byte) AND 0x7F) = 30 \<and> \<not> bit (0x30 :: byte) 7 \<and>
      bit (0x80 :: byte) 7"
    by (simp add: bcdtodec_def)
  have dhms: "time \<noteq> [] \<and> (\<forall>v\<in>set (take 4 time). 0 \<le> v \<and> v < 80) \<longrightarrow>
           (\<exists>bs. fst (alarm1 (Some (Tuple time)) AL1_MATCH_DHMS int_en weekday s) = Inr bs \<and>
              (\<exists>rest. writes (i2c (snd (alarm1 (Some (Tuple time)) AL1_MATCH_DHMS
                               int_en weekday s))) =
                       writes (i2c s) @ (addr s, ALARM1_REG, bs) # rest) \<and>
              length bs = 4 \<and> (\<forall>b\<in>set bs. \<not> bit b 7))"
    using alarm1_dhms_bits [OF ok, of time int_en weekday] by blast
  have ev1: "time \<noteq> [] \<and> (\<forall>v\<in>set (take 4 time). 0 \<le> v \<and> v \<le> 159) \<longrightarrow>
           (\<exists>bs. fst (alarm1 (Some (Tuple time)) AL1_EVERY_S int_en weekday s) = Inr bs)"
    using alarm1_every_s_completes [OF ok, of time int_en weekday] by blast
  have ev2: "\<forall>bs. fst (alarm1 (Some (Tuple time)) AL1_EVERY_S int_en weekday s) = Inr bs \<longrightarrow>
              (\<exists>rest. writes (i2c (snd (alarm1 (Some (Tuple time)) AL1_EVERY_S
                               int_en weekday s))) =
                       writes (i2c s) @ (addr s, ALARM1_REG, bs) # rest) \<and>
              length bs = 4 \<and> (\<forall>b\<in>set bs. bit b 7)"
    using alarm1_every_s_bits [OF ok, of time int_en weekday] by blast
  from dhms ev1 ev2 alarm1_match_s_30 [OF ok] dec show ?thesis by (intro conjI) blast+
qed

theorem alarm1_mask_construction_witness:
  "let s = init \<lparr>mem = \<lambda>a r. 0, writes = []\<rparr> 0x68
   in buffers_ok s \<and> [59, 59, 23, 31] \<noteq> ([] :: int list) \<and>
      (0::int) \<le> 23 \<and> (0::int) \<le> 31 \<and> (59::int) < 80 \<and> (59::int) \<le> 159 \<and>
      fst (alarm1 (Some (Tuple [59, 59, 23, 31])) AL1_MATCH_DHMS True False s) =
        Inr [0x59, 0x59, 0x23, 0x31] \<and>
      fst (alarm1 (Some (Tuple [59, 59, 23, 31])) AL1_EVERY_S True False s) =
        Inr [0xD9, 0xD9, 0xA3, 0xB1] \<and>
      (\<exists>rest. writes (i2c (snd (alarm1 (Some (Tuple [59, 59, 23, 31])) AL1_EVERY_S
                              True False s))) =
               (0x68, ALARM1_REG, [0xD9, 0xD9, 0xA3, 0xB1]) # rest) \<and>
      bit (0xD9 :: byte) 7 \<and> bit (0xA3 :: byte) 7 \<and> bit (0xB1 :: byte) 7 \<and>
      fst (alarm1 (Some (Tuple [30])) AL1_MATCH_S True False s) = Inr [0x30, 0x80, 0x80, 0x80]"
proof -
  have ok: "buffers_ok (init \<lparr>mem = \<lambda>a r. 0, writes = []\<rparr> 0x68)"
    by (simp add: buffers_ok_def init_def)
  have regs: "i2c (init bus a) = bus" "addr (init bus a) = a" for bus a
    by (simp_all add: init_def)
  have ne: "[59, 59, 23, 31] \<noteq> ([] :: int list)" by simp
  have fits: "\<forall>v\<in>set (take 4 [59, 59, 23, 31 :: int]). 0 \<le> v \<and> v \<le> 159" by simp
  have e1: "fst (alarm1 (Some (Tuple [59, 59, 23, 31])) AL1_MATCH_DHMS True False
      (init \<lparr>mem = \<lambda>a r. 0, writes = []\<rparr> 0x68)) = Inr [0x59, 0x59, 0x23, 0x31]"
    using alarm1_eq [OF ok ne fits, of AL1_MATCH_DHMS True False]
    by (simp add: AL1_MATCH_DHMS_def dectobcd_def)
  have e2: "fst (alarm1 (Some (Tuple [59, 59, 23, 31])) AL1_EVERY_S True False
      (init \<lparr>mem = \<lambda>a r. 0, writes = []\<rparr> 0x68)) = Inr [0xD9, 0xD9, 0xA3, 0xB1]"
    using alarm1_eq [OF ok ne fits, of AL1_EVERY_S True False]
    by (simp add: AL1_EVERY_S_def dectobcd_def)
  show ?thesis
    using alarm1_mask_construction [OF ok, of "[59, 59, 23, 31]" True False] ok e1 e2
    by (simp add: Let_def regs)
qed

text \<open>
  C7 as stated fails in mode \<open>AL1_MATCH_DHMS\<close> at a field of 80: the mask bit
  shares bit 7 with the BCD data, \<open>dectobcd(80)\<close> is \<open>0x80\<close>, and
  \<open>alarm1((80,))\<close> writes \<open>0x80\<close>, with bit 7 equal to 1, as its first byte.
\<close>

theorem alarm1_mask_construction_counterexample:
  "let s = init \<lparr>mem = \<lambda>a r. 0, writes = []\<rparr> 0x68;
       r = alarm1 (Some (Tuple [80])) AL1_MATCH_DHMS True False s
   in buffers_ok s \<and> AL1_MATCH_DHMS = 0 \<and>
      fst r = Inr [0x80, 0, 0, 0] \<and>
      (\<exists>rest. writes (i2c (snd r)) = (0x68, ALARM1_REG, [0x80, 0, 0, 0]) # rest) \<and>
      bit (0x80 :: byte) 7 \<and>
      \<not> (\<exists>bs. fst r = Inr bs \<and> (\<forall>b\<in>set bs. \<not> bit b 7))"
proof -
  have ok: "buffers_ok (init \<lparr>mem = \<lambda>a r. 0, writes = []\<rparr> 0x68)"
    by (simp add: buffers_ok_def init_def)
  have regs: "i2c (init bus a) = bus" "addr (init bus a) = a" for bus a
    by (simp_all add: init_def)
  have fits: "\<forall>v\<in>set (take 4 [80 :: int]). 0 \<le> v \<and> v \<le> 159" by simp
  show ?thesis
    using alarm1_eq [OF ok _ fits, of AL1_MATCH_DHMS True False] ok
    by (simp add: Let_def regs AL1_MATCH_DHMS_def dectobcd_def)
qed






end
